theory Spec2Isabelle
  imports Main
begin

section \<open>Python values\<close>

text \<open>
  A Python \<open>str\<close> is a sequence of Unicode code points, and \<open>len\<close> counts code
  points. A string is therefore a list of code points, written as natural numbers;
  \<open>u\<close> turns an ASCII literal into such a list.
\<close>

type_synonym uchar = nat
type_synonym ustring = "nat list"

definition u :: "string \<Rightarrow> ustring" where
  "u s = map of_char s"

definition startswith :: "ustring \<Rightarrow> ustring \<Rightarrow> bool" where
  "startswith s p = (take (length p) s = p)"

datatype error = ValueError

record datetime =
  year :: nat
  month :: nat
  day :: nat
  hour :: nat
  minute :: nat
  second :: nat

text \<open>
  What \<open>update_rss_feed.py\<close> takes from the interpreter and its libraries and does not
  define itself:
  \<^item> \<open>isspace\<close>: the whitespace class of \<open>str.strip()\<close>;
  \<^item> \<open>decimal\<close>: the decimal value of a code point outside ASCII that the Unicode
    database classes as a decimal digit (\<open>\d\<close> of \<open>re\<close> matches it, \<open>int\<close> converts it);
  \<^item> \<open>urljoin\<close>: \<open>urllib.parse.urljoin\<close>, which raises \<open>ValueError\<close> on some
    references (for example \<open>//[\<close>);
  \<^item> \<open>now\<close>: the successive readings of \<open>datetime.datetime.now()\<close> during one call
    of \<open>extract_articles\<close> (reading number 0 is the first);
  \<^item> \<open>utcnow\<close>: the successive readings of
    \<open>datetime.datetime.now(datetime.timezone.utc)\<close> during one call of
    \<open>generate_rss_xml\<close>.
\<close>

record runtime =
  isspace :: "uchar \<Rightarrow> bool"
  decimal :: "uchar \<Rightarrow> nat option"
  urljoin :: "ustring \<Rightarrow> ustring \<Rightarrow> error + ustring"
  now :: "nat \<Rightarrow> datetime"
  utcnow :: "nat \<Rightarrow> datetime"

definition todecimal :: "runtime \<Rightarrow> uchar \<Rightarrow> nat option" where
  "todecimal rt c =
     (if 48 \<le> c \<and> c \<le> 57 then Some (c - 48) else if c < 128 then None else decimal rt c)"

definition isdigit :: "runtime \<Rightarrow> uchar \<Rightarrow> bool" where
  "isdigit rt c = (todecimal rt c \<noteq> None)"

text \<open>\<open>s.strip()\<close>: leading and trailing whitespace removed.\<close>

definition strip :: "runtime \<Rightarrow> ustring \<Rightarrow> ustring" where
  "strip rt s = rev (dropWhile (isspace rt) (rev (dropWhile (isspace rt) s)))"

section \<open>Formatting numbers and dates\<close>

fun str_nat :: "nat \<Rightarrow> ustring" where
  "str_nat n = (if n < 10 then [48 + n] else str_nat (n div 10) @ [48 + n mod 10])"

declare str_nat.simps [simp del]

definition zfill :: "nat \<Rightarrow> ustring \<Rightarrow> ustring" where
  "zfill w s = replicate (w - length s) 48 @ s"

text \<open>
  \<open>strftime('%Y-%m-%d')\<close> of a reading of the clock. A clock never reads a year
  before 1000, and from the year 1000 on \<open>%Y\<close> has four digits with every C library;
  \<open>%m\<close> and \<open>%d\<close> are zero-padded to two.
\<close>

definition strftime_ymd :: "datetime \<Rightarrow> ustring" where
  "strftime_ymd dt =
     zfill 4 (str_nat (year dt)) @ u ''-'' @ zfill 2 (str_nat (month dt)) @ u ''-'' @
     zfill 2 (str_nat (day dt))"

section \<open>The parsed document\<close>

text \<open>
  The tree that \<open>BeautifulSoup(html_content, 'html.parser')\<close> builds. A
  \<open>NavigableString\<close> is text that \<open>get_text()\<close> returns; \<open>Comment\<close> stands for the
  string nodes that \<open>get_text()\<close> leaves out (comments, declarations); a \<open>Tag\<close> has a
  name, its attribute dictionary (an association list read with \<open>map_of\<close>) and its
  contents. The \<open>BeautifulSoup\<close> object is itself a \<open>Tag\<close>, the root, whose \<open>parent\<close>
  is \<open>None\<close>.
\<close>

datatype node =
    NavigableString ustring
  | Comment ustring
  | Tag ustring "(ustring \<times> ustring) list" "node list"

fun get_text :: "node \<Rightarrow> ustring" where
  "get_text (NavigableString s) = s"
| "get_text (Comment s) = []"
| "get_text (Tag name attrs contents) = concat (map get_text contents)"

fun get_attr :: "node \<Rightarrow> ustring \<Rightarrow> ustring option" where
  "get_attr (Tag name attrs contents) key = map_of attrs key"
| "get_attr _ key = None"

text \<open>
  An element found by \<open>find_all\<close> is kept with its chain of parents, nearest first:
  \<open>link.parent\<close>, \<open>link.parent.parent\<close>, ..., the root.
\<close>

type_synonym element = "node \<times> node list"

fun a_tags :: "node list \<Rightarrow> node \<Rightarrow> element list" where
  "a_tags parents (NavigableString s) = []"
| "a_tags parents (Comment s) = []"
| "a_tags parents (Tag name attrs contents) =
     (if name = u ''a'' then [(Tag name attrs contents, parents)] else []) @
     concat (map (a_tags (Tag name attrs contents # parents)) contents)"

text \<open>\<open>soup.find_all('a')\<close>: the descendants of the root named \<open>a\<close>, in document order.\<close>

fun find_all_a :: "node \<Rightarrow> element list" where
  "find_all_a (Tag name attrs contents) =
     concat (map (a_tags [Tag name attrs contents]) contents)"
| "find_all_a _ = []"

section \<open>The date pattern\<close>

text \<open>
  \<open>re.search(r'(\d{4}-\d{2}-\d{2})', text)\<close>: the pattern is a sequence of ten atoms,
  each matching one character, and \<open>search\<close> returns the leftmost match.
\<close>

datatype atom = Digit | Lit uchar

fun match_here :: "runtime \<Rightarrow> atom list \<Rightarrow> ustring \<Rightarrow> bool" where
  "match_here rt [] s = True"
| "match_here rt (a # as) [] = False"
| "match_here rt (Digit # as) (c # s) = (isdigit rt c \<and> match_here rt as s)"
| "match_here rt (Lit x # as) (c # s) = (c = x \<and> match_here rt as s)"

fun re_search :: "runtime \<Rightarrow> atom list \<Rightarrow> ustring \<Rightarrow> ustring option" where
  "re_search rt p [] = (if match_here rt p [] then Some [] else None)"
| "re_search rt p (c # s) =
     (if match_here rt p (c # s) then Some (take (length p) (c # s))
      else re_search rt p s)"

definition date_re :: "atom list" where
  "date_re = [Digit, Digit, Digit, Digit, Lit 45, Digit, Digit, Lit 45, Digit, Digit]"

section \<open>extract_articles\<close>

definition BASE_URL :: ustring where
  "BASE_URL = u ''https://www.orangenews.hk''"

text \<open>The four navigation labels of line 67, as code points.\<close>

definition nav_labels :: "ustring list" where
  "nav_labels =
     [[0x67E5, 0x770B, 0x66F4, 0x591A],
      [0x4E0B, 0x8F09, 0x41, 0x50, 0x50],
      [0x767B, 0x5165],
      [0x9996, 0x9801]]"

text \<open>
  An article is a dictionary with string keys and string values; the renderer reads
  the four keys below with \<open>get\<close>, so each may be absent (\<open>None\<close>).
\<close>

record article =
  title :: "ustring option"
  link :: "ustring option"
  pubDate :: "ustring option"
  description :: "ustring option"

text \<open>
  Lines 84 to 95: the walk up the parents. The first argument is the chain that
  starts at \<open>parent\<close>; the empty chain is \<open>parent = None\<close>.
\<close>

fun date_search :: "runtime \<Rightarrow> node list \<Rightarrow> nat \<Rightarrow> ustring option" where
  "date_search rt [] search_depth = None"
| "date_search rt (parent # up) search_depth =
     (if search_depth < 5 then
        (case re_search rt date_re (get_text parent) of
           Some date_text \<Rightarrow> Some date_text
         | None \<Rightarrow> date_search rt up (search_depth + 1))
      else None)"

text \<open>Lines 80 to 82. The error is the \<open>ValueError\<close> of \<open>urljoin\<close>.\<close>

definition normalize_url :: "runtime \<Rightarrow> ustring \<Rightarrow> error + ustring" where
  "normalize_url rt href =
     (if \<not> startswith href (u ''http'') then urljoin rt BASE_URL href else Inr href)"

text \<open>
  Lines 85 to 99: the date of a link whose chain of parents is given, with the
  number of clock readings made so far; \<open>not date_text\<close> holds of \<open>None\<close> and of the
  empty string.
\<close>

definition infer_date :: "runtime \<Rightarrow> nat \<Rightarrow> node list \<Rightarrow> ustring \<times> nat" where
  "infer_date rt k parents =
     (case date_search rt parents 0 of
        None \<Rightarrow> (strftime_ymd (now rt k), Suc k)
      | Some date_text \<Rightarrow>
          if date_text = [] then (strftime_ymd (now rt k), Suc k) else (date_text, k))"

text \<open>
  Lines 66 to 105 for one link: the filters, the URL, the date. The result is an
  error when \<open>urljoin\<close> raises, and otherwise the article to add (if any) with the
  number of clock readings made so far.
\<close>

definition examine :: "runtime \<Rightarrow> nat \<Rightarrow> element \<Rightarrow> error + (article option \<times> nat)" where
  "examine rt k l =
     (let text = get_text (fst l) in
      if text = [] \<or> strip rt text \<in> set nav_labels then Inr (None, k)
      else
        let title = strip rt text in
        if length title < 5 then Inr (None, k)
        else
          (case get_attr (fst l) (u ''href'') of
             None \<Rightarrow> Inr (None, k)
           | Some href \<Rightarrow>
               if href = [] \<or> href = u ''#'' then Inr (None, k)
               else
                 (case normalize_url rt href of
                    Inl e \<Rightarrow> Inl e
                  | Inr href' \<Rightarrow>
                      (case infer_date rt k (snd l) of
                         (date_text, k') \<Rightarrow>
                           if title \<noteq> [] \<and> href' \<noteq> [] \<and> date_text \<noteq> [] then
                             Inr (Some \<lparr>title = Some title, link = Some href',
                                        pubDate = Some date_text,
                                        description = Some title\<rparr>, k')
                           else Inr (None, k')))))"

text \<open>Lines 107 to 113: the article is appended unless its link is already listed.\<close>

definition append_new :: "article option \<Rightarrow> article list \<Rightarrow> article list" where
  "append_new c articles =
     (case c of
        None \<Rightarrow> articles
      | Some a \<Rightarrow> if \<not> list_ex (\<lambda>b. link b = link a) articles then articles @ [a]
                 else articles)"

text \<open>The \<open>for\<close> loop of line 65, with \<open>articles\<close> and the count of clock readings.\<close>

fun for_links :: "runtime \<Rightarrow> element list \<Rightarrow> article list \<times> nat \<Rightarrow> error + article list" where
  "for_links rt [] (articles, k) = Inr articles"
| "for_links rt (l # ls) (articles, k) =
     (case examine rt k l of
        Inl e \<Rightarrow> Inl e
      | Inr (c, k') \<Rightarrow> for_links rt ls (append_new c articles, k'))"

text \<open>
  The argument is \<open>None\<close> when \<open>html_content\<close> is \<open>None\<close> or empty (line 58) and
  otherwise the tree parsed from it.
\<close>

definition extract_articles :: "runtime \<Rightarrow> node option \<Rightarrow> error + article list" where
  "extract_articles rt html_content =
     (case html_content of
        None \<Rightarrow> Inr []
      | Some soup \<Rightarrow> for_links rt (find_all_a soup) ([], 0))"

section \<open>Escaping and dates of the renderer\<close>

text \<open>\<open>html.escape(s)\<close> with \<open>quote=True\<close>: five replacements, the ampersand first.\<close>

definition replace1 :: "uchar \<Rightarrow> ustring \<Rightarrow> ustring \<Rightarrow> ustring" where
  "replace1 old new s = concat (map (\<lambda>c. if c = old then new else [c]) s)"

definition html_escape :: "ustring \<Rightarrow> ustring" where
  "html_escape s =
     replace1 39 (u ''&#x27;'')
       (replace1 34 (u ''&quot;'')
          (replace1 62 (u ''&gt;'')
             (replace1 60 (u ''&lt;'')
                (replace1 38 (u ''&amp;'') s))))"

text \<open>
  \<open>datetime.datetime.strptime(s, "%Y-%m-%d")\<close>. The library matches the regular
  expression
  \<^verbatim>\<open>(?P<Y>\d\d\d\d)-(?P<m>1[0-2]|0[1-9]|[1-9])-(?P<d>3[0-1]|[1-2]\d|0[1-9]|[1-9]| [1-9])\<close>
  at the start of the string, raises \<open>ValueError\<close> when nothing matches or when text
  remains after the match, converts the three groups with \<open>int\<close>, and raises
  \<open>ValueError\<close> when they are not a date of the calendar. Each \<open>alt\<close> function lists
  the ways its group can match, in the order the alternatives are tried, as the
  digits matched and the rest of the string.
\<close>

definition between :: "uchar \<Rightarrow> nat \<Rightarrow> nat \<Rightarrow> bool" where
  "between c lo hi = (48 + lo \<le> c \<and> c \<le> 48 + hi)"

definition alt_Y :: "runtime \<Rightarrow> ustring \<Rightarrow> (ustring \<times> ustring) list" where
  "alt_Y rt s =
     (case s of
        a # b # c # d # rest \<Rightarrow>
          if isdigit rt a \<and> isdigit rt b \<and> isdigit rt c \<and> isdigit rt d
          then [([a, b, c, d], rest)] else []
      | _ \<Rightarrow> [])"

definition alt_m :: "ustring \<Rightarrow> (ustring \<times> ustring) list" where
  "alt_m s =
     (case s of
        a # b # rest \<Rightarrow>
          (if a = 49 \<and> between b 0 2 then [([a, b], rest)] else []) @
          (if a = 48 \<and> between b 1 9 then [([a, b], rest)] else [])
      | _ \<Rightarrow> []) @
     (case s of
        a # rest \<Rightarrow> if between a 1 9 then [([a], rest)] else []
      | _ \<Rightarrow> [])"

definition alt_d :: "runtime \<Rightarrow> ustring \<Rightarrow> (ustring \<times> ustring) list" where
  "alt_d rt s =
     (case s of
        a # b # rest \<Rightarrow>
          (if a = 51 \<and> between b 0 1 then [([a, b], rest)] else []) @
          (if between a 1 2 \<and> isdigit rt b then [([a, b], rest)] else []) @
          (if a = 48 \<and> between b 1 9 then [([a, b], rest)] else [])
      | _ \<Rightarrow> []) @
     (case s of
        a # rest \<Rightarrow> if between a 1 9 then [([a], rest)] else []
      | _ \<Rightarrow> []) @
     (case s of
        a # b # rest \<Rightarrow> if a = 32 \<and> between b 1 9 then [([b], rest)] else []
      | _ \<Rightarrow> [])"

definition hyphen :: "ustring \<Rightarrow> ustring list" where
  "hyphen s = (case s of c # rest \<Rightarrow> if c = 45 then [rest] else [] | _ \<Rightarrow> [])"

definition format_regex_match ::
    "runtime \<Rightarrow> ustring \<Rightarrow> (ustring \<times> ustring \<times> ustring \<times> ustring) list" where
  "format_regex_match rt s =
     concat (map (\<lambda>(y, r1).
       concat (map (\<lambda>r2.
         concat (map (\<lambda>(m, r3).
           concat (map (\<lambda>r4.
             map (\<lambda>(d, r5). (y, m, d, r5)) (alt_d rt r4))
           (hyphen r3)))
         (alt_m r2)))
       (hyphen r1)))
     (alt_Y rt s))"

text \<open>\<open>int\<close> of a string of decimal digits.\<close>

definition int_of :: "runtime \<Rightarrow> ustring \<Rightarrow> nat" where
  "int_of rt ds =
     foldl (\<lambda>n c. 10 * n + (case todecimal rt c of Some v \<Rightarrow> v | None \<Rightarrow> 0)) 0 ds"

definition is_leap :: "nat \<Rightarrow> bool" where
  "is_leap y = (y mod 4 = 0 \<and> (y mod 100 \<noteq> 0 \<or> y mod 400 = 0))"

definition DAYS_IN_MONTH :: "nat list" where
  "DAYS_IN_MONTH = [0, 31, 28, 31, 30, 31, 30, 31, 31, 30, 31, 30, 31]"

definition days_in_month :: "nat \<Rightarrow> nat \<Rightarrow> nat" where
  "days_in_month y m = (if m = 2 \<and> is_leap y then 29 else DAYS_IN_MONTH ! m)"

text \<open>The check of the \<open>date\<close> constructor.\<close>

definition check_date_fields :: "nat \<Rightarrow> nat \<Rightarrow> nat \<Rightarrow> bool" where
  "check_date_fields y m d =
     (1 \<le> y \<and> y \<le> 9999 \<and> 1 \<le> m \<and> m \<le> 12 \<and> 1 \<le> d \<and> d \<le> days_in_month y m)"

definition strptime :: "runtime \<Rightarrow> ustring \<Rightarrow> error + datetime" where
  "strptime rt s =
     (case format_regex_match rt s of
        [] \<Rightarrow> Inl ValueError
      | (y, m, d, rest) # _ \<Rightarrow>
          if rest \<noteq> [] then Inl ValueError
          else if check_date_fields (int_of rt y) (int_of rt m) (int_of rt d)
          then Inr \<lparr>year = int_of rt y, month = int_of rt m, day = int_of rt d,
                    hour = 0, minute = 0, second = 0\<rparr>
          else Inl ValueError)"

text \<open>
  \<open>strftime("%a, %d %b %Y %H:%M:%S %z")\<close> of a datetime whose \<open>tzinfo\<close> is UTC, with
  the day and month names of the C locale. The weekday is computed as the library
  does, from the ordinal of the date; Monday is 0. \<open>%Y\<close> is the year in decimal
  without padding, as CPython 3.11 writes it with the C library of Linux: the parsed
  date \<open>0999-03-15\<close> is written with the year \<open>999\<close>.
\<close>

definition days_before_year :: "nat \<Rightarrow> nat" where
  "days_before_year y = (y - 1) * 365 + (y - 1) div 4 - (y - 1) div 100 + (y - 1) div 400"

definition days_before_month :: "nat \<Rightarrow> nat \<Rightarrow> nat" where
  "days_before_month y m =
     sum_list (take (m - 1) (tl DAYS_IN_MONTH)) + (if m > 2 \<and> is_leap y then 1 else 0)"

definition toordinal :: "datetime \<Rightarrow> nat" where
  "toordinal dt = days_before_year (year dt) + days_before_month (year dt) (month dt) + day dt"

definition weekday :: "datetime \<Rightarrow> nat" where
  "weekday dt = (toordinal dt + 6) mod 7"

definition day_abbr :: "nat \<Rightarrow> ustring" where
  "day_abbr w =
     map u [''Mon'', ''Tue'', ''Wed'', ''Thu'', ''Fri'', ''Sat'', ''Sun''] ! (w mod 7)"

definition month_abbr :: "nat \<Rightarrow> ustring" where
  "month_abbr m =
     (if 1 \<le> m \<and> m \<le> 12
      then map u [''Jan'', ''Feb'', ''Mar'', ''Apr'', ''May'', ''Jun'',
                  ''Jul'', ''Aug'', ''Sep'', ''Oct'', ''Nov'', ''Dec''] ! (m - 1)
      else [])"

definition strftime_rfc822 :: "datetime \<Rightarrow> ustring" where
  "strftime_rfc822 dt =
     day_abbr (weekday dt) @ u '', '' @ zfill 2 (str_nat (day dt)) @ u '' '' @
     month_abbr (month dt) @ u '' '' @ str_nat (year dt) @ u '' '' @
     zfill 2 (str_nat (hour dt)) @ u '':'' @ zfill 2 (str_nat (minute dt)) @ u '':'' @
     zfill 2 (str_nat (second dt)) @ u '' +0000''"

section \<open>generate_rss_xml\<close>

text \<open>Lines 120 to 128; the argument is the clock reading of line 128.\<close>

definition channel_head :: "datetime \<Rightarrow> ustring" where
  "channel_head t =
     u ''<?xml version=\"1.0\" encoding=\"UTF-8\" ?>\<newline>'' @
     u ''<rss version=\"2.0\" xmlns:atom=\"http://www.w3.org/2005/Atom\">\<newline>'' @
     u ''<channel>\<newline>'' @
     u ''  <title>Orange News - Commentaries</title>\<newline>'' @
     (u ''  <link>'' @ BASE_URL @ u ''/html/topic/index.html</link>\<newline>'') @
     u ''  <description>Latest commentaries from Orange News HK</description>\<newline>'' @
     u ''  <language>zh-cn</language>\<newline>'' @
     u ''  <atom:link href=\"https://totrphbm.manus.space/feed.xml\" rel=\"self\" type=\"application/rss+xml\" />\<newline>'' @
     (u ''  <lastBuildDate>'' @ strftime_rfc822 t @ u ''</lastBuildDate>\<newline>'')"

text \<open>Lines 136 to 145: the timestamp of one article, with the clock readings made.\<close>

definition pub_date_rfc822 :: "runtime \<Rightarrow> nat \<Rightarrow> article \<Rightarrow> ustring \<times> nat" where
  "pub_date_rfc822 rt k a =
     (case pubDate a of
        None \<Rightarrow> (strftime_rfc822 (utcnow rt k), Suc k)
      | Some pub_date_str \<Rightarrow>
          if pub_date_str = [] then (strftime_rfc822 (utcnow rt k), Suc k)
          else
            (case strptime rt pub_date_str of
               Inr dt_object \<Rightarrow>
                 (strftime_rfc822 (dt_object\<lparr>hour := 12, minute := 0, second := 0\<rparr>), k)
             | Inl ValueError \<Rightarrow> (strftime_rfc822 (utcnow rt k), Suc k)))"

text \<open>Lines 147 to 153.\<close>

definition item_block :: "ustring \<Rightarrow> ustring \<Rightarrow> ustring \<Rightarrow> ustring \<Rightarrow> ustring" where
  "item_block etitle elink edescription date =
     u ''  <item>\<newline>'' @
     (u ''    <title>'' @ etitle @ u ''</title>\<newline>'') @
     (u ''    <link>'' @ elink @ u ''</link>\<newline>'') @
     (u ''    <description>'' @ edescription @ u ''</description>\<newline>'') @
     (u ''    <pubDate>'' @ date @ u ''</pubDate>\<newline>'') @
     (u ''    <guid isPermaLink=\"true\">'' @ elink @ u ''</guid>\<newline>'') @
     u ''  </item>\<newline>''"

text \<open>Lines 131 to 133: the three escaped fields, with the defaults of \<open>get\<close>.\<close>

definition escaped_title :: "article \<Rightarrow> ustring" where
  "escaped_title a = html_escape (case title a of None \<Rightarrow> u ''No Title'' | Some t \<Rightarrow> t)"

definition escaped_link :: "article \<Rightarrow> ustring" where
  "escaped_link a = html_escape (case link a of None \<Rightarrow> u ''#'' | Some l \<Rightarrow> l)"

definition escaped_description :: "article \<Rightarrow> ustring" where
  "escaped_description a =
     html_escape (case description a of None \<Rightarrow> escaped_title a | Some d \<Rightarrow> d)"

text \<open>Lines 131 to 153 for one article.\<close>

definition render_article :: "runtime \<Rightarrow> nat \<Rightarrow> article \<Rightarrow> ustring \<times> nat" where
  "render_article rt k a =
     (case pub_date_rfc822 rt k a of
        (date, k') \<Rightarrow>
          (item_block (escaped_title a) (escaped_link a) (escaped_description a) date, k'))"

text \<open>The \<open>for\<close> loop of line 130, with \<open>rss_content\<close> and the count of clock readings.\<close>

fun for_articles :: "runtime \<Rightarrow> article list \<Rightarrow> ustring \<times> nat \<Rightarrow> ustring" where
  "for_articles rt [] (rss_content, k) = rss_content"
| "for_articles rt (a # as) (rss_content, k) =
     (case render_article rt k a of
        (item, k') \<Rightarrow> for_articles rt as (rss_content @ item, k'))"

definition generate_rss_xml :: "runtime \<Rightarrow> article list \<Rightarrow> ustring" where
  "generate_rss_xml rt articles =
     for_articles rt articles (channel_head (utcnow rt 0), 1) @
     u ''</channel>\<newline>'' @ u ''</rss>\<newline>''"

section \<open>An interpreter to run the program on\<close>

text \<open>
  The closed examples below need one concrete runtime. Its \<open>urljoin\<close> follows
  \<open>urllib.parse.urljoin\<close> of CPython 3.11 on \<open>str\<close> arguments, function by function;
  the two validations of \<open>urlsplit\<close> that need other libraries (of a bracketed host,
  and of a non-ASCII netloc under NFKC normalisation) are left out, so the model is
  that of the library on references with an ASCII netloc without brackets.
\<close>

definition split_first :: "uchar \<Rightarrow> ustring \<Rightarrow> ustring \<times> ustring" where
  \<comment> \<open>\<open>s.split(c, 1)\<close> when \<open>c\<close> occurs in \<open>s\<close>\<close>
  "split_first c s = (takeWhile (\<lambda>x. x \<noteq> c) s, tl (dropWhile (\<lambda>x. x \<noteq> c) s))"

fun split_on :: "uchar \<Rightarrow> ustring \<Rightarrow> ustring list" where
  \<comment> \<open>\<open>s.split(c)\<close>\<close>
  "split_on c [] = [[]]"
| "split_on c (x # s) =
     (if x = c then [] # split_on c s
      else (case split_on c s of seg # segs \<Rightarrow> (x # seg) # segs | [] \<Rightarrow> [[x]]))"

fun join :: "ustring \<Rightarrow> ustring list \<Rightarrow> ustring" where
  "join sep [] = []"
| "join sep [s] = s"
| "join sep (s # t # ss) = s @ sep @ join sep (t # ss)"

definition uses_relative :: "ustring list" where
  "uses_relative = map u [[], ''ftp'', ''http'', ''gopher'', ''nntp'', ''imap'', ''wais'',
     ''file'', ''https'', ''shttp'', ''mms'', ''prospero'', ''rtsp'', ''rtsps'', ''rtspu'',
     ''sftp'', ''svn'', ''svn+ssh'', ''ws'', ''wss'']"

definition uses_netloc :: "ustring list" where
  "uses_netloc = map u [[], ''ftp'', ''http'', ''gopher'', ''nntp'', ''telnet'', ''imap'',
     ''wais'', ''file'', ''mms'', ''https'', ''shttp'', ''snews'', ''prospero'', ''rtsp'',
     ''rtsps'', ''rtspu'', ''rsync'', ''svn'', ''svn+ssh'', ''sftp'', ''nfs'', ''git'',
     ''git+ssh'', ''ws'', ''wss'']"

definition uses_params :: "ustring list" where
  "uses_params = map u [[], ''ftp'', ''hdl'', ''prospero'', ''http'', ''imap'', ''https'',
     ''shttp'', ''rtsp'', ''rtsps'', ''rtspu'', ''sip'', ''sips'', ''mms'', ''sftp'', ''tel'']"

definition ascii_alpha :: "uchar \<Rightarrow> bool" where
  "ascii_alpha c = ((65 \<le> c \<and> c \<le> 90) \<or> (97 \<le> c \<and> c \<le> 122))"

definition scheme_char :: "uchar \<Rightarrow> bool" where
  "scheme_char c = (ascii_alpha c \<or> (48 \<le> c \<and> c \<le> 57) \<or> c = 43 \<or> c = 45 \<or> c = 46)"

text \<open>The test of \<open>urlsplit\<close> for a scheme in front of the first colon.\<close>

definition has_scheme :: "ustring \<Rightarrow> bool" where
  "has_scheme url =
     (58 \<in> set url \<and> takeWhile (\<lambda>c. c \<noteq> 58) url \<noteq> [] \<and> ascii_alpha (hd url) \<and>
      list_all scheme_char (takeWhile (\<lambda>c. c \<noteq> 58) url))"

definition ascii_lower :: "uchar \<Rightarrow> uchar" where
  "ascii_lower c = (if 65 \<le> c \<and> c \<le> 90 then c + 32 else c)"

definition c0_or_space :: "uchar \<Rightarrow> bool" where
  "c0_or_space c = (c \<le> 32)"

definition unsafe_removed :: "ustring \<Rightarrow> ustring" where
  "unsafe_removed s = filter (\<lambda>c. c \<noteq> 9 \<and> c \<noteq> 13 \<and> c \<noteq> 10) s"

text \<open>\<open>urlsplit(url, scheme)\<close>: scheme, netloc, path, query, fragment.\<close>

definition urlsplit ::
    "ustring \<Rightarrow> ustring \<Rightarrow> error + (ustring \<times> ustring \<times> ustring \<times> ustring \<times> ustring)" where
  "urlsplit url0 scheme0 =
     (let url1 = unsafe_removed (dropWhile c0_or_space url0);
          scheme1 = unsafe_removed
                      (rev (dropWhile c0_or_space (rev (dropWhile c0_or_space scheme0))));
          pre = takeWhile (\<lambda>c. c \<noteq> 58) url1;
          found = has_scheme url1;
          scheme = (if found then map ascii_lower pre else scheme1);
          url2 = (if found then drop (length pre + 1) url1 else url1);
          slashes = (take 2 url2 = u ''//'');
          netloc = (if slashes
                    then takeWhile (\<lambda>c. c \<noteq> 47 \<and> c \<noteq> 63 \<and> c \<noteq> 35) (drop 2 url2)
                    else []);
          url3 = (if slashes
                  then dropWhile (\<lambda>c. c \<noteq> 47 \<and> c \<noteq> 63 \<and> c \<noteq> 35) (drop 2 url2)
                  else url2)
      in
        if slashes \<and> ((91 \<in> set netloc \<and> 93 \<notin> set netloc) \<or>
                      (93 \<in> set netloc \<and> 91 \<notin> set netloc))
        then Inl ValueError
        else
          let fragment = (if 35 \<in> set url3 then snd (split_first 35 url3) else []);
              url4 = (if 35 \<in> set url3 then fst (split_first 35 url3) else url3);
              query = (if 63 \<in> set url4 then snd (split_first 63 url4) else []);
              url5 = (if 63 \<in> set url4 then fst (split_first 63 url4) else url4)
          in Inr (scheme, netloc, url5, query, fragment))"

definition splitparams :: "ustring \<Rightarrow> ustring \<times> ustring" where
  "splitparams url =
     (let last_seg = rev (takeWhile (\<lambda>c. c \<noteq> 47) (rev url));
          front = take (length url - length last_seg) url
      in if 59 \<in> set last_seg
         then (front @ fst (split_first 59 last_seg), snd (split_first 59 last_seg))
         else (url, []))"

definition urlparse ::
    "ustring \<Rightarrow> ustring \<Rightarrow>
     error + (ustring \<times> ustring \<times> ustring \<times> ustring \<times> ustring \<times> ustring)" where
  "urlparse url0 scheme0 =
     (case urlsplit url0 scheme0 of
        Inl e \<Rightarrow> Inl e
      | Inr (scheme, netloc, url, query, fragment) \<Rightarrow>
          if scheme \<in> set uses_params \<and> 59 \<in> set url
          then Inr (scheme, netloc, fst (splitparams url), snd (splitparams url), query, fragment)
          else Inr (scheme, netloc, url, [], query, fragment))"

definition urlunsplit :: "ustring \<times> ustring \<times> ustring \<times> ustring \<times> ustring \<Rightarrow> ustring" where
  "urlunsplit parts =
     (case parts of (scheme, netloc, url0, query, fragment) \<Rightarrow>
        let url1 = (if netloc \<noteq> [] \<or> (scheme \<noteq> [] \<and> scheme \<in> set uses_netloc) \<or>
                       take 2 url0 = u ''//''
                    then u ''//'' @ netloc @
                         (if url0 \<noteq> [] \<and> take 1 url0 \<noteq> u ''/'' then u ''/'' @ url0 else url0)
                    else url0);
            url2 = (if scheme \<noteq> [] then scheme @ u '':'' @ url1 else url1);
            url3 = (if query \<noteq> [] then url2 @ u ''?'' @ query else url2)
        in (if fragment \<noteq> [] then url3 @ u ''#'' @ fragment else url3))"

definition urlunparse ::
    "ustring \<times> ustring \<times> ustring \<times> ustring \<times> ustring \<times> ustring \<Rightarrow> ustring" where
  "urlunparse parts =
     (case parts of (scheme, netloc, url, params, query, fragment) \<Rightarrow>
        urlunsplit (scheme, netloc, (if params \<noteq> [] then url @ u '';'' @ params else url),
                    query, fragment))"

text \<open>The loop over the segments of \<open>urljoin\<close>, and the slice assignment before it.\<close>

fun resolve :: "ustring list \<Rightarrow> ustring list \<Rightarrow> ustring list" where
  "resolve [] resolved_path = resolved_path"
| "resolve (seg # segs) resolved_path =
     (if seg = u ''..'' then resolve segs (butlast resolved_path)
      else if seg = u ''.'' then resolve segs resolved_path
      else resolve segs (resolved_path @ [seg]))"

definition inner_filtered :: "ustring list \<Rightarrow> ustring list" where
  "inner_filtered segments =
     (if length segments < 2 then segments
      else hd segments # filter (\<lambda>seg. seg \<noteq> []) (butlast (tl segments)) @ [last segments])"

definition urllib_urljoin :: "ustring \<Rightarrow> ustring \<Rightarrow> error + ustring" where
  "urllib_urljoin base url =
     (if base = [] then Inr url
      else if url = [] then Inr base
      else
        (case urlparse base [] of
           Inl e \<Rightarrow> Inl e
         | Inr (bscheme, bnetloc, bpath, bparams, bquery, bfragment) \<Rightarrow>
             (case urlparse url bscheme of
                Inl e \<Rightarrow> Inl e
              | Inr (scheme, netloc0, path, params, query, fragment) \<Rightarrow>
                  if scheme \<noteq> bscheme \<or> scheme \<notin> set uses_relative then Inr url
                  else if scheme \<in> set uses_netloc \<and> netloc0 \<noteq> []
                  then Inr (urlunparse (scheme, netloc0, path, params, query, fragment))
                  else
                    let netloc = (if scheme \<in> set uses_netloc then bnetloc else netloc0) in
                    if path = [] \<and> params = []
                    then Inr (urlunparse (scheme, netloc, bpath, bparams,
                                          (if query = [] then bquery else query), fragment))
                    else
                      let base_parts = (if last (split_on 47 bpath) \<noteq> []
                                        then butlast (split_on 47 bpath)
                                        else split_on 47 bpath);
                          segments = (if take 1 path = u ''/'' then split_on 47 path
                                      else inner_filtered (base_parts @ split_on 47 path));
                          resolved_path = resolve segments [];
                          resolved_path' = (if last segments = u ''.'' \<or> last segments = u ''..''
                                            then resolved_path @ [[]] else resolved_path);
                          joined = join (u ''/'') resolved_path'
                      in Inr (urlunparse (scheme, netloc,
                                          (if joined = [] then u ''/'' else joined),
                                          params, query, fragment)))))"

text \<open>
  The whitespace class is that of \<open>str.isspace\<close>; the digit table has the fullwidth
  digits only. All clock readings of a run fall in the same second.
\<close>

definition py_isspace :: "uchar \<Rightarrow> bool" where
  "py_isspace c =
     ((9 \<le> c \<and> c \<le> 13) \<or> (28 \<le> c \<and> c \<le> 32) \<or> c = 0x85 \<or> c = 0xA0 \<or> c = 0x1680 \<or>
      (0x2000 \<le> c \<and> c \<le> 0x200A) \<or> c = 0x2028 \<or> c = 0x2029 \<or> c = 0x202F \<or>
      c = 0x205F \<or> c = 0x3000)"

definition fullwidth_decimal :: "uchar \<Rightarrow> nat option" where
  "fullwidth_decimal c = (if 0xFF10 \<le> c \<and> c \<le> 0xFF19 then Some (c - 0xFF10) else None)"

definition python :: runtime where
  "python =
     \<lparr>isspace = py_isspace,
      decimal = fullwidth_decimal,
      urljoin = urllib_urljoin,
      now = (\<lambda>k. \<lparr>year = 2024, month = 5, day = 20, hour = 8, minute = 30, second = 0\<rparr>),
      utcnow = (\<lambda>k. \<lparr>year = 2024, month = 5, day = 20, hour = 0, minute = 30, second = 0\<rparr>)\<rparr>"

section \<open>Notions of the specification, and sample pages\<close>

text \<open>
  The definitions below are not code of the program. They name what the claims speak
  of (a link that passes the filters, the candidates in document order, the first date
  among the nearest parents, the first record of each link) and give the pages and
  articles of the closed examples.
\<close>

text \<open>\<open>link.get('href')\<close> of a link that has the attribute.\<close>

definition href_of :: "node \<Rightarrow> ustring" where
  "href_of nd = (case get_attr nd (u ''href'') of Some href \<Rightarrow> href | None \<Rightarrow> [])"

text \<open>
  A link passes the filters of lines 67 to 78: its trimmed text is no navigation label
  and has at least five characters, and its \<open>href\<close> is present, not empty and not
  \<open>#\<close>.
\<close>

definition accepted :: "runtime \<Rightarrow> element \<Rightarrow> bool" where
  "accepted rt l =
     (strip rt (get_text (fst l)) \<notin> set nav_labels \<and> 5 \<le> length (strip rt (get_text (fst l))) \<and>
      (case get_attr (fst l) (u ''href'') of
         None \<Rightarrow> False
       | Some href \<Rightarrow> href \<noteq> [] \<and> href \<noteq> u ''#''))"

text \<open>The link that lines 80 to 82 store for the \<open>href\<close> of a link.\<close>

definition resolved :: "runtime \<Rightarrow> element \<Rightarrow> error + ustring" where
  "resolved rt l = normalize_url rt (href_of (fst l))"

text \<open>
  The candidates of a list of links: the articles that \<open>examine\<close> builds for them, in
  order, with the clock readings threaded as the loop does.
\<close>

fun candidates :: "runtime \<Rightarrow> nat \<Rightarrow> element list \<Rightarrow> error + article list" where
  "candidates rt k [] = Inr []"
| "candidates rt k (l # ls) =
     (case examine rt k l of
        Inl e \<Rightarrow> Inl e
      | Inr (c, k') \<Rightarrow>
          (case candidates rt k' ls of
             Inl e \<Rightarrow> Inl e
           | Inr cs \<Rightarrow> Inr (case c of None \<Rightarrow> cs | Some a \<Rightarrow> a # cs)))"

text \<open>Of the articles that share a link, only the first is kept.\<close>

definition first_wins :: "article list \<Rightarrow> article list" where
  "first_wins cs =
     map (nth cs) (filter (\<lambda>i. link (cs ! i) \<notin> set (map link (take i cs))) [0..<length cs])"

text \<open>
  The date of the first node of a list whose text has a match of the date pattern.
\<close>

definition first_date :: "runtime \<Rightarrow> node list \<Rightarrow> ustring option" where
  "first_date rt ancestors =
     (case List.find (\<lambda>p. re_search rt date_re (get_text p) \<noteq> None) ancestors of
        None \<Rightarrow> None
      | Some p \<Rightarrow> re_search rt date_re (get_text p))"

text \<open>
  A qualifying link in the words of the specification: trimmed text not empty, no
  navigation label, at least five characters; \<open>href\<close> present and not \<open>#\<close>.
\<close>

definition qualifying :: "runtime \<Rightarrow> element \<Rightarrow> bool" where
  "qualifying rt l =
     (strip rt (get_text (fst l)) \<noteq> [] \<and> strip rt (get_text (fst l)) \<notin> set nav_labels \<and>
      5 \<le> length (strip rt (get_text (fst l))) \<and>
      (case get_attr (fst l) (u ''href'') of
         None \<Rightarrow> False
       | Some href \<Rightarrow> href \<noteq> u ''#''))"

text \<open>
  A link that the specification excludes: trimmed text shorter than five characters or
  a navigation label, or \<open>href\<close> absent or \<open>#\<close>.
\<close>

definition disqualified :: "runtime \<Rightarrow> element \<Rightarrow> bool" where
  "disqualified rt l =
     (length (strip rt (get_text (fst l))) < 5 \<or> strip rt (get_text (fst l)) \<in> set nav_labels \<or>
      get_attr (fst l) (u ''href'') = None \<or> get_attr (fst l) (u ''href'') = Some (u ''#''))"

text \<open>
  An index page: a dated headline, a placeholder link, a navigation label, a headline
  five levels deep (so that no date is within its five nearest parents), a second link
  to the first article, and an anchor without \<open>href\<close>.
\<close>

definition index_page :: node where
  "index_page =
     Tag (u ''[document]'') []
       [Tag (u ''div'') [(u ''class'', u ''list'')]
          [Tag (u ''a'') [(u ''href'', u ''/html/a1.html'')]
             [NavigableString (u '' Orange headline one '')],
           Tag (u ''span'') [] [NavigableString (u ''2024-03-15'')]],
        Tag (u ''a'') [(u ''href'', u ''#'')] [NavigableString (u ''Orange headline two'')],
        Tag (u ''a'') [(u ''href'', u ''/more.html'')]
          [NavigableString [0x67E5, 0x770B, 0x66F4, 0x591A]],
        Tag (u ''div'') []
          [Tag (u ''div'') []
             [Tag (u ''div'') []
                [Tag (u ''div'') []
                   [Tag (u ''div'') []
                      [Tag (u ''a'') [(u ''href'', u ''news/a3.html'')]
                         [NavigableString (u ''Orange headline three'')]]]]]],
        Tag (u ''a'') [(u ''href'', u ''https://www.orangenews.hk/html/a1.html'')]
          [NavigableString (u ''Duplicate of one'')],
        Tag (u ''a'') [] [NavigableString (u ''No href at all'')]]"

definition article_one :: article where
  "article_one =
     \<lparr>title = Some (u ''Orange headline one''),
      link = Some (u ''https://www.orangenews.hk/html/a1.html''),
      pubDate = Some (u ''2024-03-15''),
      description = Some (u ''Orange headline one'')\<rparr>"

definition article_three :: article where
  "article_three =
     \<lparr>title = Some (u ''Orange headline three''),
      link = Some (u ''https://www.orangenews.hk/news/a3.html''),
      pubDate = Some (u ''2024-05-20''),
      description = Some (u ''Orange headline three'')\<rparr>"

definition article_dup :: article where
  "article_dup =
     \<lparr>title = Some (u ''Duplicate of one''),
      link = Some (u ''https://www.orangenews.hk/html/a1.html''),
      pubDate = Some (u ''2024-03-15''),
      description = Some (u ''Duplicate of one'')\<rparr>"

text \<open>The page \<^verbatim>\<open><a href="">Orange headline</a>\<close>.\<close>

definition empty_href_page :: node where
  "empty_href_page =
     Tag (u ''[document]'') []
       [Tag (u ''a'') [(u ''href'', [])] [NavigableString (u ''Orange headline'')]]"

text \<open>The page \<^verbatim>\<open><a href="httpdocs/a.html">Orange headline</a>\<close>.\<close>

definition http_path_page :: node where
  "http_path_page =
     Tag (u ''[document]'') []
       [Tag (u ''a'') [(u ''href'', u ''httpdocs/a.html'')]
          [NavigableString (u ''Orange headline'')]]"

text \<open>A page with two headlines and a placeholder link between them.\<close>

definition two_links_page :: node where
  "two_links_page =
     Tag (u ''[document]'') []
       [Tag (u ''a'') [(u ''href'', u ''/html/a1.html'')]
          [NavigableString (u '' Orange headline one '')],
        Tag (u ''a'') [(u ''href'', u ''#'')] [NavigableString (u ''Orange headline two'')],
        Tag (u ''a'') [(u ''href'', u ''news/a3.html'')]
          [NavigableString (u ''Orange headline three'')]]"

text \<open>
  The page \<^verbatim>\<open><a href="//[">Orange headline</a>\<close>, on whose link \<open>urljoin\<close>
  raises.
\<close>

definition bracket_page :: node where
  "bracket_page =
     Tag (u ''[document]'') []
       [Tag (u ''a'') [(u ''href'', u ''//['')] [NavigableString (u ''Orange headline'')]]"

text \<open>
  The item blocks that the loop of line 130 appends for a list of articles, and the
  number of clock readings after it.
\<close>

fun items :: "runtime \<Rightarrow> nat \<Rightarrow> article list \<Rightarrow> ustring" where
  "items rt k [] = []"
| "items rt k (a # as) =
     fst (render_article rt k a) @ items rt (snd (render_article rt k a)) as"

fun readings :: "runtime \<Rightarrow> nat \<Rightarrow> article list \<Rightarrow> nat" where
  "readings rt k [] = k"
| "readings rt k (a # as) = readings rt (snd (render_article rt k a)) as"

text \<open>Lines 155 and 156.\<close>

definition channel_tail :: ustring where
  "channel_tail = u ''</channel>\<newline>'' @ u ''</rss>\<newline>''"

text \<open>
  Reading an escaped field back: each of the five entities that \<open>html.escape\<close> writes
  is replaced by its character.
\<close>

function unescape :: "ustring \<Rightarrow> ustring" where
  "unescape [] = []"
| "unescape (c # s) =
     (if c \<noteq> 38 then c # unescape s
      else if startswith s (u ''amp;'') then 38 # unescape (drop 4 s)
      else if startswith s (u ''lt;'') then 60 # unescape (drop 3 s)
      else if startswith s (u ''gt;'') then 62 # unescape (drop 3 s)
      else if startswith s (u ''quot;'') then 34 # unescape (drop 5 s)
      else if startswith s (u ''#x27;'') then 39 # unescape (drop 5 s)
      else c # unescape s)"
  by pat_completeness auto
termination
  by (relation "measure length") auto

text \<open>
  A text in escaped form: no raw \<open><\<close>, \<open>>\<close> or quote, and every ampersand
  starts one of the five entities.
\<close>

fun escaped_only :: "ustring \<Rightarrow> bool" where
  "escaped_only [] = True"
| "escaped_only (c # s) =
     (if c = 38
      then (startswith s (u ''amp;'') \<or> startswith s (u ''lt;'') \<or> startswith s (u ''gt;'') \<or>
            startswith s (u ''quot;'') \<or> startswith s (u ''#x27;'')) \<and> escaped_only s
      else c \<noteq> 60 \<and> c \<noteq> 62 \<and> c \<noteq> 34 \<and> c \<noteq> 39 \<and> escaped_only s)"

text \<open>The number of positions of a text at which a given text starts.\<close>

fun occurrences :: "ustring \<Rightarrow> ustring \<Rightarrow> nat" where
  "occurrences p [] = (if p = [] then 1 else 0)"
| "occurrences p (c # s) = (if startswith (c # s) p then 1 else 0) + occurrences p s"

text \<open>
  The timestamp in the words of the specification, \<open>Dow, DD Mon YYYY HH:MM:SS +0000\<close>,
  built without the functions of the program. The weekday is found by counting the
  days from 1 January of the year 1, a Monday; the year is written in decimal (four
  digits from the year 1000 on).
\<close>

definition leap_year :: "nat \<Rightarrow> bool" where
  "leap_year y = (4 dvd y \<and> (\<not> 100 dvd y \<or> 400 dvd y))"

fun days_of_years :: "nat \<Rightarrow> nat" where
  "days_of_years 0 = 0"
| "days_of_years (Suc n) = days_of_years n + (if leap_year (Suc n) then 366 else 365)"

definition month_days :: "nat \<Rightarrow> nat \<Rightarrow> nat" where
  "month_days y m =
     (if m = 2 then (if leap_year y then 29 else 28)
      else if m = 4 \<or> m = 6 \<or> m = 9 \<or> m = 11 then 30
      else 31)"

definition day_number :: "nat \<Rightarrow> nat \<Rightarrow> nat \<Rightarrow> nat" where
  "day_number y m d = days_of_years (y - 1) + sum_list (map (month_days y) [1..<m]) + d"

definition day_of_week :: "nat \<Rightarrow> nat \<Rightarrow> nat \<Rightarrow> nat" where
  "day_of_week y m d = (day_number y m d - 1) mod 7"

definition day_name :: "nat \<Rightarrow> ustring" where
  "day_name w =
     (if w = 0 then u ''Mon'' else if w = 1 then u ''Tue'' else if w = 2 then u ''Wed''
      else if w = 3 then u ''Thu'' else if w = 4 then u ''Fri'' else if w = 5 then u ''Sat''
      else u ''Sun'')"

definition month_name :: "nat \<Rightarrow> ustring" where
  "month_name m =
     (if m = 1 then u ''Jan'' else if m = 2 then u ''Feb'' else if m = 3 then u ''Mar''
      else if m = 4 then u ''Apr'' else if m = 5 then u ''May'' else if m = 6 then u ''Jun''
      else if m = 7 then u ''Jul'' else if m = 8 then u ''Aug'' else if m = 9 then u ''Sep''
      else if m = 10 then u ''Oct'' else if m = 11 then u ''Nov'' else u ''Dec'')"

definition two_digits :: "nat \<Rightarrow> ustring" where
  "two_digits n = [48 + n div 10, 48 + n mod 10]"

definition four_digits :: "nat \<Rightarrow> ustring" where
  "four_digits n = [48 + n div 1000, 48 + n div 100 mod 10, 48 + n div 10 mod 10, 48 + n mod 10]"

definition year_text :: "nat \<Rightarrow> ustring" where
  "year_text y = dropWhile (\<lambda>c. c = 48) (four_digits y)"

definition rfc822_text :: "nat \<Rightarrow> nat \<Rightarrow> nat \<Rightarrow> nat \<Rightarrow> nat \<Rightarrow> nat \<Rightarrow> ustring" where
  "rfc822_text y m d hh mm ss =
     day_name (day_of_week y m d) @ u '', '' @ two_digits d @ u '' '' @ month_name m @
     u '' '' @ year_text y @ u '' '' @ two_digits hh @ u '':'' @ two_digits mm @ u '':'' @
     two_digits ss @ u '' +0000''"

text \<open>The text \<open>YYYY-MM-DD\<close> of a date.\<close>

definition date_text :: "nat \<Rightarrow> nat \<Rightarrow> nat \<Rightarrow> ustring" where
  "date_text y m d = four_digits y @ u ''-'' @ two_digits m @ u ''-'' @ two_digits d"

text \<open>A reading of the clock is a datetime that the constructor accepts.\<close>

definition valid_datetime :: "datetime \<Rightarrow> bool" where
  "valid_datetime dt =
     (check_date_fields (year dt) (month dt) (day dt) \<and>
      hour dt < 24 \<and> minute dt < 60 \<and> second dt < 60)"

text \<open>An article whose fields hold every character that is escaped.\<close>

definition sample_article :: article where
  "sample_article =
     \<lparr>title = Some (u ''Tom & Jerry <live> \"now\"''),
      link = Some (u ''https://www.orangenews.hk/a?x=1&y=2''),
      pubDate = Some (u ''2024-03-15''),
      description = Some (u ''It's on'')\<rparr>"

section \<open>Lemmas\<close>

subsection \<open>One link\<close>

lemma u_nonempty [simp]: "u (c # s) \<noteq> []"
  by (simp add: u_def)

lemma strftime_ymd_nonempty: "strftime_ymd dt \<noteq> []"
  by (simp add: strftime_ymd_def)

lemma infer_date_nonempty: "fst (infer_date rt k ps) \<noteq> []"
  by (simp add: infer_date_def strftime_ymd_nonempty split: option.split)

lemma examine_not_accepted: "\<not> accepted rt l \<Longrightarrow> examine rt k l = Inr (None, k)"
  by (auto simp: examine_def accepted_def Let_def split: option.splits)

lemma examine_accepted:
  assumes "accepted rt l" and "resolved rt l = Inr h" and "h \<noteq> []"
  shows "examine rt k l =
           Inr (Some \<lparr>title = Some (strip rt (get_text (fst l))), link = Some h,
                      pubDate = Some (fst (infer_date rt k (snd l))),
                      description = Some (strip rt (get_text (fst l)))\<rparr>,
                snd (infer_date rt k (snd l)))"
proof -
  from assms(1) obtain href where h: "get_attr (fst l) (u ''href'') = Some href"
    "href \<noteq> []" "href \<noteq> u ''#''"
    by (auto simp: accepted_def split: option.splits)
  from assms(1) have t: "strip rt (get_text (fst l)) \<notin> set nav_labels"
    "\<not> length (strip rt (get_text (fst l))) < 5" "get_text (fst l) \<noteq> []"
    by (auto simp: accepted_def strip_def)
  from t(2) have t': "strip rt (get_text (fst l)) \<noteq> []" by auto
  from assms(2) h have n: "normalize_url rt href = Inr h"
    by (simp add: resolved_def href_of_def)
  show ?thesis
    using h t t' n assms(3) infer_date_nonempty [of rt k "snd l"]
    by (cases "infer_date rt k (snd l)") (simp add: examine_def Let_def)
qed

subsection \<open>The loop over the links\<close>

lemma append_new_None [simp]: "append_new None articles = articles"
  by (simp add: append_new_def)

lemma append_new_Some:
  "append_new (Some a) articles =
     (if link a \<in> set (map link articles) then articles else articles @ [a])"
proof -
  have "list_ex (\<lambda>b. link b = link a) articles \<longleftrightarrow> link a \<in> set (map link articles)"
    by (induction articles) auto
  then show ?thesis by (simp add: append_new_def)
qed

lemma for_links_accepted:
  assumes "\<forall>l \<in> set (filter (accepted rt) ls). \<exists>h. resolved rt l = Inr h \<and> h \<noteq> []"
      and "distinct (map link acc @ map (\<lambda>l. Some (projr (resolved rt l))) (filter (accepted rt) ls))"
  shows "\<exists>out. for_links rt ls (acc, k) = Inr (acc @ out) \<and>
           map link out = map (\<lambda>l. Some (projr (resolved rt l))) (filter (accepted rt) ls) \<and>
           map title out = map (\<lambda>l. Some (strip rt (get_text (fst l)))) (filter (accepted rt) ls)"
  using assms
proof (induction ls arbitrary: acc k)
  case Nil
  then show ?case by simp
next
  case (Cons l ls)
  show ?case
  proof (cases "accepted rt l")
    case False
    with Cons.prems have "\<exists>out. for_links rt ls (acc, k) = Inr (acc @ out) \<and>
           map link out = map (\<lambda>l. Some (projr (resolved rt l))) (filter (accepted rt) ls) \<and>
           map title out = map (\<lambda>l. Some (strip rt (get_text (fst l)))) (filter (accepted rt) ls)"
      by (intro Cons.IH) auto
    with False show ?thesis by (simp add: examine_not_accepted)
  next
    case True
    with Cons.prems(1) obtain h where h: "resolved rt l = Inr h" "h \<noteq> []" by auto
    define a where "a = \<lparr>title = Some (strip rt (get_text (fst l))), link = Some h,
                      pubDate = Some (fst (infer_date rt k (snd l))),
                      description = Some (strip rt (get_text (fst l)))\<rparr>"
    have ex: "examine rt k l = Inr (Some a, snd (infer_date rt k (snd l)))"
      unfolding a_def by (rule examine_accepted [OF True h])
    have la: "link a = Some h" by (simp add: a_def)
    from Cons.prems(2) True h have fresh: "link a \<notin> set (map link acc)"
      by (auto simp: la)
    from Cons.prems(2) True h
    have d: "distinct (map link (acc @ [a]) @
               map (\<lambda>l. Some (projr (resolved rt l))) (filter (accepted rt) ls))"
      by (auto simp: la)
    from Cons.prems(1) True
    have r: "\<forall>l \<in> set (filter (accepted rt) ls). \<exists>h. resolved rt l = Inr h \<and> h \<noteq> []"
      by auto
    from Cons.IH [OF r d, of "snd (infer_date rt k (snd l))"]
    obtain out where out: "for_links rt ls (acc @ [a], snd (infer_date rt k (snd l))) = Inr ((acc @ [a]) @ out)"
      "map link out = map (\<lambda>l. Some (projr (resolved rt l))) (filter (accepted rt) ls)"
      "map title out = map (\<lambda>l. Some (strip rt (get_text (fst l)))) (filter (accepted rt) ls)"
      by blast
    have "for_links rt (l # ls) (acc, k) = Inr (acc @ (a # out))"
      using ex fresh out(1) by (simp add: append_new_Some)
    moreover have "map link (a # out) = map (\<lambda>l. Some (projr (resolved rt l))) (filter (accepted rt) (l # ls))"
      using True h out(2) by (simp add: la)
    moreover have "map title (a # out) = map (\<lambda>l. Some (strip rt (get_text (fst l)))) (filter (accepted rt) (l # ls))"
      using True out(3) by (simp add: a_def)
    ultimately show ?thesis by blast
  qed
qed

lemma for_links_candidates:
  "for_links rt ls (acc, k) =
     (case candidates rt k ls of
        Inl e \<Rightarrow> Inl e
      | Inr cs \<Rightarrow> Inr (foldl (\<lambda>articles a. append_new (Some a) articles) acc cs))"
proof (induction ls arbitrary: acc k)
  case Nil
  then show ?case by simp
next
  case (Cons l ls)
  show ?case
  proof (cases "examine rt k l")
    case (Inl e)
    then show ?thesis by simp
  next
    case (Inr p)
    obtain c k' where p: "p = (c, k')" by (cases p)
    show ?thesis
      using Inr p Cons.IH [of "append_new c acc" k']
      by (cases c) (auto split: sum.splits)
  qed
qed

lemma first_wins_snoc:
  "first_wins (cs @ [c]) = first_wins cs @ (if link c \<in> set (map link cs) then [] else [c])"
proof -
  have 1: "filter (\<lambda>i. link ((cs @ [c]) ! i) \<notin> set (map link (take i (cs @ [c])))) [0..<length cs] =
           filter (\<lambda>i. link (cs ! i) \<notin> set (map link (take i cs))) [0..<length cs]"
    by (rule filter_cong) (auto simp: nth_append)
  have 2: "map (nth (cs @ [c])) (filter (\<lambda>i. link (cs ! i) \<notin> set (map link (take i cs))) [0..<length cs]) =
           map (nth cs) (filter (\<lambda>i. link (cs ! i) \<notin> set (map link (take i cs))) [0..<length cs])"
    by (rule map_cong) (auto simp: nth_append)
  show ?thesis
    unfolding first_wins_def using 1 2 by simp
qed

lemma first_wins_Nil [simp]: "first_wins [] = []"
  by (simp add: first_wins_def)

lemma links_first_wins: "set (map link (first_wins cs)) = set (map link cs)"
proof (induction cs rule: rev_induct)
  case Nil
  then show ?case by simp
next
  case (snoc c cs)
  then show ?case by (auto simp: first_wins_snoc)
qed

lemma foldl_append_new: "foldl (\<lambda>articles a. append_new (Some a) articles) [] cs = first_wins cs"
proof (induction cs rule: rev_induct)
  case Nil
  then show ?case by (simp add: first_wins_def)
next
  case (snoc c cs)
  then show ?case
    using links_first_wins [of cs] by (simp add: first_wins_snoc append_new_Some)
qed

lemma distinct_first_wins: "distinct (map link (first_wins cs))"
proof (induction cs rule: rev_induct)
  case Nil
  then show ?case by (simp add: first_wins_def)
next
  case (snoc c cs)
  then show ?case
    using links_first_wins [of cs] by (simp add: first_wins_snoc)
qed

lemma candidates_origin:
  "candidates rt k ls = Inr cs \<Longrightarrow> r \<in> set cs \<Longrightarrow>
     \<exists>l \<in> set ls. \<exists>j j'. examine rt j l = Inr (Some r, j')"
proof (induction ls arbitrary: k cs)
  case Nil
  then show ?case by simp
next
  case (Cons l ls)
  from Cons.prems(1) obtain c k' cs' where e: "examine rt k l = Inr (c, k')"
    and c: "candidates rt k' ls = Inr cs'"
    and cs: "cs = (case c of None \<Rightarrow> cs' | Some a \<Rightarrow> a # cs')"
    by (auto split: sum.splits)
  show ?case
  proof (cases "r \<in> set cs'")
    case True
    from Cons.IH [OF c True] show ?thesis by auto
  next
    case False
    with Cons.prems(2) cs have "c = Some r" by (cases c) auto
    with e show ?thesis by auto
  qed
qed

lemma set_first_wins: "set (first_wins cs) \<subseteq> set cs"
  by (auto simp: first_wins_def)

lemma examine_accepted_eq:
  assumes "accepted rt l"
  shows "examine rt k l =
           (case resolved rt l of
              Inl e \<Rightarrow> Inl e
            | Inr h \<Rightarrow>
                if h \<noteq> [] then
                  Inr (Some \<lparr>title = Some (strip rt (get_text (fst l))), link = Some h,
                             pubDate = Some (fst (infer_date rt k (snd l))),
                             description = Some (strip rt (get_text (fst l)))\<rparr>,
                       snd (infer_date rt k (snd l)))
                else Inr (None, snd (infer_date rt k (snd l))))"
proof (cases "resolved rt l")
  case (Inl e)
  from assms obtain href where h: "get_attr (fst l) (u ''href'') = Some href"
    "href \<noteq> []" "href \<noteq> u ''#''"
    by (auto simp: accepted_def split: option.splits)
  from assms have t: "strip rt (get_text (fst l)) \<notin> set nav_labels"
    "\<not> length (strip rt (get_text (fst l))) < 5" "get_text (fst l) \<noteq> []"
    by (auto simp: accepted_def strip_def)
  from Inl h have "normalize_url rt href = Inl e"
    by (simp add: resolved_def href_of_def)
  with h t Inl show ?thesis by (simp add: examine_def Let_def)
next
  case (Inr h)
  show ?thesis
  proof (cases "h = []")
    case False
    with Inr examine_accepted [OF assms Inr False] show ?thesis by simp
  next
    case True
    from assms obtain href where h: "get_attr (fst l) (u ''href'') = Some href"
      "href \<noteq> []" "href \<noteq> u ''#''"
      by (auto simp: accepted_def split: option.splits)
    from assms have t: "strip rt (get_text (fst l)) \<notin> set nav_labels"
      "\<not> length (strip rt (get_text (fst l))) < 5" "get_text (fst l) \<noteq> []"
      by (auto simp: accepted_def strip_def)
    from Inr h True have "normalize_url rt href = Inr []"
      by (simp add: resolved_def href_of_def)
    with h t Inr True show ?thesis
      by (cases "infer_date rt k (snd l)") (simp add: examine_def Let_def)
  qed
qed

lemma examine_Some:
  assumes "examine rt k l = Inr (Some r, k')"
  shows "accepted rt l \<and>
         (\<exists>h. resolved rt l = Inr h \<and> h \<noteq> [] \<and>
              r = \<lparr>title = Some (strip rt (get_text (fst l))), link = Some h,
                    pubDate = Some (fst (infer_date rt k (snd l))),
                    description = Some (strip rt (get_text (fst l)))\<rparr>) \<and>
         k' = snd (infer_date rt k (snd l))"
proof (cases "accepted rt l")
  case False
  with assms show ?thesis by (simp add: examine_not_accepted)
next
  case True
  with assms show ?thesis
    by (auto simp: examine_accepted_eq split: sum.splits if_splits)
qed

lemma extract_articles_candidates:
  "extract_articles rt (Some soup) = Inr articles \<Longrightarrow>
     \<exists>cs. candidates rt 0 (find_all_a soup) = Inr cs \<and> articles = first_wins cs"
  by (auto simp: extract_articles_def for_links_candidates foldl_append_new split: sum.splits)

lemma extract_articles_origin:
  assumes "extract_articles rt (Some soup) = Inr articles" and "r \<in> set articles"
  shows "\<exists>l \<in> set (find_all_a soup). \<exists>k k'. examine rt k l = Inr (Some r, k')"
proof -
  from extract_articles_candidates [OF assms(1)]
  obtain cs where cs: "candidates rt 0 (find_all_a soup) = Inr cs" "articles = first_wins cs"
    by blast
  with assms(2) set_first_wins [of cs] have "r \<in> set cs" by auto
  from candidates_origin [OF cs(1) this] show ?thesis .
qed

subsection \<open>Trimming\<close>

lemma dropWhile_prefix_fixed:
  assumes "dropWhile P (xs @ ys) = xs @ ys"
  shows "dropWhile P xs = xs"
proof (cases xs)
  case Nil
  then show ?thesis by simp
next
  case (Cons a list)
  have "\<not> P a"
  proof
    assume "P a"
    with Cons assms have "dropWhile P (list @ ys) = a # list @ ys" by simp
    then have "length (dropWhile P (list @ ys)) = Suc (length (list @ ys))" by simp
    with length_dropWhile_le [of P "list @ ys"] show False by simp
  qed
  with Cons show ?thesis by simp
qed

lemma strip_idem: "strip rt (strip rt s) = strip rt s"
proof -
  define P where "P = isspace rt"
  define t where "t = dropWhile P s"
  define t' where "t' = rev (dropWhile P (rev t))"
  have "rev t = takeWhile P (rev t) @ dropWhile P (rev t)" by simp
  then have "t = t' @ rev (takeWhile P (rev t))"
    unfolding t'_def by (metis rev_append rev_rev_ident)
  moreover have "dropWhile P t = t" unfolding t_def by (simp add: dropWhile_idem)
  ultimately have 1: "dropWhile P t' = t'" by (metis dropWhile_prefix_fixed)
  have 2: "dropWhile P (rev t') = rev t'" unfolding t'_def by (simp add: dropWhile_idem)
  show ?thesis
    using 1 2 unfolding strip_def P_def [symmetric] t_def [symmetric] t'_def [symmetric]
    by simp
qed

subsection \<open>The date of a link\<close>

lemma match_here_take:
  "match_here rt p s \<Longrightarrow> match_here rt p (take (length p) s) \<and> length (take (length p) s) = length p"
  by (induction rt p s rule: match_here.induct) auto

lemma re_search_Some:
  "re_search rt p s = Some d \<Longrightarrow> match_here rt p d \<and> length d = length p"
  by (induction rt p s rule: re_search.induct) (auto split: if_splits dest: match_here_take)

lemma date_search_first_date:
  "date_search rt ps n = first_date rt (take (5 - n) ps)"
proof (induction ps arbitrary: n)
  case Nil
  then show ?case by (simp add: first_date_def)
next
  case (Cons p ps)
  show ?case
  proof (cases "n < 5")
    case False
    then show ?thesis by (simp add: first_date_def)
  next
    case True
    then obtain m where m: "5 - n = Suc m" "5 - (n + 1) = m" by (cases "5 - n") auto
    show ?thesis
      using True m Cons.IH [of "n + 1"]
      by (auto simp: first_date_def split: option.splits)
  qed
qed

lemma first_date_nonempty: "first_date rt ps = Some d \<Longrightarrow> match_here rt date_re d \<and> length d = 10"
  by (auto simp: first_date_def date_re_def split: option.splits dest!: re_search_Some)

lemma infer_date_first_date:
  "infer_date rt k ps =
     (case first_date rt (take 5 ps) of
        Some d \<Rightarrow> (d, k)
      | None \<Rightarrow> (strftime_ymd (now rt k), Suc k))"
  using date_search_first_date [of rt ps 0] first_date_nonempty [of rt "take 5 ps"]
  by (auto simp: infer_date_def split: option.splits)

subsection \<open>The program on the sample pages\<close>

lemmas model_defs =
  extract_articles_def u_def examine_def Let_def strip_def python_def py_isspace_def
  nav_labels_def normalize_url_def startswith_def infer_date_def date_re_def isdigit_def
  todecimal_def fullwidth_decimal_def append_new_def BASE_URL_def urllib_urljoin_def
  urlparse_def urlsplit_def urlunparse_def urlunsplit_def has_scheme_def unsafe_removed_def
  c0_or_space_def ascii_alpha_def scheme_char_def ascii_lower_def uses_relative_def
  uses_netloc_def uses_params_def split_first_def inner_filtered_def splitparams_def
  strftime_ymd_def zfill_def str_nat.simps accepted_def resolved_def href_of_def
  qualifying_def disqualified_def

lemma links_index_page:
  "map fst (find_all_a index_page) =
     [Tag (u ''a'') [(u ''href'', u ''/html/a1.html'')]
        [NavigableString (u '' Orange headline one '')],
      Tag (u ''a'') [(u ''href'', u ''#'')] [NavigableString (u ''Orange headline two'')],
      Tag (u ''a'') [(u ''href'', u ''/more.html'')]
        [NavigableString [0x67E5, 0x770B, 0x66F4, 0x591A]],
      Tag (u ''a'') [(u ''href'', u ''news/a3.html'')]
        [NavigableString (u ''Orange headline three'')],
      Tag (u ''a'') [(u ''href'', u ''https://www.orangenews.hk/html/a1.html'')]
        [NavigableString (u ''Duplicate of one'')],
      Tag (u ''a'') [] [NavigableString (u ''No href at all'')]]"
  by (simp add: index_page_def u_def)

lemma extract_index_page:
  "extract_articles python (Some index_page) = Inr [article_one, article_three]"
  by (simp add: model_defs index_page_def article_one_def article_three_def)

lemma candidates_index_page:
  "candidates python 0 (find_all_a index_page) = Inr [article_one, article_three, article_dup]"
  by (simp add: model_defs index_page_def article_one_def article_three_def article_dup_def)

lemma extract_empty_href_page: "extract_articles python (Some empty_href_page) = Inr []"
  by (simp add: model_defs empty_href_page_def)

lemma extract_http_path_page:
  "extract_articles python (Some http_path_page) =
     Inr [\<lparr>title = Some (u ''Orange headline''), link = Some (u ''httpdocs/a.html''),
           pubDate = Some (u ''2024-05-20''), description = Some (u ''Orange headline'')\<rparr>]"
  by (simp add: model_defs http_path_page_def)

subsection \<open>Links that are skipped\<close>

lemma for_links_skip:
  assumes "\<And>k. examine rt k l = Inr (None, k)"
  shows "for_links rt (before @ l # after) (acc, k) = for_links rt (before @ after) (acc, k)"
proof (induction before arbitrary: acc k)
  case Nil
  then show ?case by (simp add: assms)
next
  case (Cons b before)
  then show ?case by (auto split: sum.splits)
qed

lemma disqualified_not_accepted: "disqualified rt l \<Longrightarrow> \<not> accepted rt l"
  by (auto simp: disqualified_def accepted_def)

subsection \<open>The modelled urljoin never returns the placeholder\<close>

lemma hd_urlunparse:
  "scheme \<noteq> [] \<Longrightarrow> hd (urlunparse (scheme, n, p, pa, q, f)) = hd scheme"
  by (simp add: urlunparse_def urlunsplit_def Let_def)

lemma urlparse_base:
  "urlparse BASE_URL [] = Inr (u ''https'', u ''www.orangenews.hk'', [], [], [], [])"
  by (simp add: BASE_URL_def u_def urlparse_def urlsplit_def has_scheme_def unsafe_removed_def
      c0_or_space_def ascii_alpha_def scheme_char_def ascii_lower_def uses_params_def
      split_first_def Let_def)

lemma urlparse_hash:
  "urlparse (u ''#'') (u ''https'') = Inr (u ''https'', [], [], [], [], [])"
  by (simp add: u_def urlparse_def urlsplit_def has_scheme_def unsafe_removed_def
      c0_or_space_def ascii_alpha_def scheme_char_def ascii_lower_def uses_params_def
      split_first_def Let_def)

lemma urllib_urljoin_not_hash: "urllib_urljoin BASE_URL h \<noteq> Inr (u ''#'')"
proof
  assume eq: "urllib_urljoin BASE_URL h = Inr (u ''#'')"
  have b: "BASE_URL \<noteq> []" "BASE_URL \<noteq> u ''#''" by (simp_all add: BASE_URL_def u_def)
  have https: "u ''https'' \<in> set uses_relative" "u ''https'' \<noteq> []" "hd (u ''https'') \<noteq> hd (u ''#'')"
    by (simp_all add: uses_relative_def u_def)
  show False
  proof (cases "h = []")
    case True
    with eq b show False by (simp add: urllib_urljoin_def)
  next
    case False
    show False
    proof (cases "urlparse h (u ''https'')")
      case (Inl e)
      with eq b False show False by (simp add: urllib_urljoin_def urlparse_base)
    next
      case (Inr parts)
      obtain scheme netloc0 path params query fragment
        where parts: "parts = (scheme, netloc0, path, params, query, fragment)"
        by (cases parts) auto
      show False
      proof (cases "scheme \<noteq> u ''https'' \<or> scheme \<notin> set uses_relative")
        case True
        with eq b False Inr parts have "h = u ''#''"
          by (simp add: urllib_urljoin_def urlparse_base)
        with Inr parts urlparse_hash have "scheme = u ''https''" by simp
        with True https show False by simp
      next
        case sch: False
        then have s: "scheme = u ''https''" by simp
        from eq b False Inr parts s
        obtain n p pa q f where "urlunparse (u ''https'', n, p, pa, q, f) = u ''#''"
          by (auto simp: urllib_urljoin_def urlparse_base Let_def https split: if_splits)
        with hd_urlunparse [OF https(2), of n p pa q f] https(3) show False by simp
      qed
    qed
  qed
qed

subsection \<open>Formatted dates\<close>

lemma str_nat_digits: "c \<in> set (str_nat n) \<Longrightarrow> 48 \<le> c \<and> c \<le> 57"
proof (induction n rule: str_nat.induct)
  case (1 n)
  show ?case
  proof (cases "n < 10")
    case True
    with "1.prems" show ?thesis by (simp add: str_nat.simps [of n])
  next
    case False
    with "1.prems" "1.IH" show ?thesis by (auto simp: str_nat.simps [of n])
  qed
qed

lemma length_str_nat: "n < 10 ^ w \<Longrightarrow> 0 < w \<Longrightarrow> length (str_nat n) \<le> w"
proof (induction n arbitrary: w rule: str_nat.induct)
  case (1 n)
  show ?case
  proof (cases "n < 10")
    case True
    with "1.prems" show ?thesis by (simp add: str_nat.simps [of n])
  next
    case False
    obtain v where v: "w = Suc v" using "1.prems"(2) by (cases w) auto
    from False "1.prems"(1) v have "0 < v" by (cases v) auto
    moreover from "1.prems"(1) v have "n div 10 < 10 ^ v"
      by (simp add: less_mult_imp_div_less mult.commute)
    ultimately have "length (str_nat (n div 10)) \<le> v" using "1.IH" [OF False] by blast
    with False v show ?thesis by (simp add: str_nat.simps [of n])
  qed
qed

lemma zfill_digits:
  "n < 10 ^ w \<Longrightarrow> 0 < w \<Longrightarrow>
     length (zfill w (str_nat n)) = w \<and> (\<forall>c \<in> set (zfill w (str_nat n)). 48 \<le> c \<and> c \<le> 57)"
  using length_str_nat [of n w] str_nat_digits [of _ n] by (auto simp: zfill_def)

lemma isdigit_ascii: "48 \<le> c \<Longrightarrow> c \<le> 57 \<Longrightarrow> isdigit rt c"
  by (simp add: isdigit_def todecimal_def)

lemma match_date_digits:
  assumes "length y = 4" "length m = 2" "length d = 2"
    and "\<forall>c \<in> set (y @ m @ d). isdigit rt c"
  shows "match_here rt date_re (y @ u ''-'' @ m @ u ''-'' @ d) \<and>
         length (y @ u ''-'' @ m @ u ''-'' @ d) = 10"
proof -
  from assms(1) obtain y1 y2 y3 y4 where y: "y = [y1, y2, y3, y4]"
    by (auto simp: length_Suc_conv numeral_eq_Suc)
  from assms(2) obtain m1 m2 where m: "m = [m1, m2]"
    by (auto simp: length_Suc_conv numeral_eq_Suc)
  from assms(3) obtain d1 d2 where d: "d = [d1, d2]"
    by (auto simp: length_Suc_conv numeral_eq_Suc)
  from assms(4) show ?thesis by (simp add: y m d date_re_def u_def)
qed

lemma strftime_ymd_matches:
  assumes "check_date_fields (year dt) (month dt) (day dt)"
  shows "match_here rt date_re (strftime_ymd dt) \<and> length (strftime_ymd dt) = 10"
proof -
  have dim: "days_in_month (year dt) (month dt) \<le> 31"
    using assms
    by (auto simp: check_date_fields_def days_in_month_def DAYS_IN_MONTH_def nth_Cons'
        split: if_splits)
  from assms dim have b: "year dt < 10 ^ 4" "month dt < 10 ^ 2" "day dt < 10 ^ 2"
    by (auto simp: check_date_fields_def)
  note zy = zfill_digits [OF b(1)] and zm = zfill_digits [OF b(2)] and zd = zfill_digits [OF b(3)]
  have "\<forall>c \<in> set (zfill 4 (str_nat (year dt)) @ zfill 2 (str_nat (month dt)) @
            zfill 2 (str_nat (day dt))). isdigit rt c"
    using zy zm zd by (auto intro: isdigit_ascii)
  with match_date_digits [of "zfill 4 (str_nat (year dt))" "zfill 2 (str_nat (month dt))"
      "zfill 2 (str_nat (day dt))" rt] zy zm zd
  show ?thesis by (simp add: strftime_ymd_def)
qed

subsection \<open>A link on which urljoin raises\<close>

lemma extract_bracket_page:
  "urljoin python BASE_URL (u ''//['') = Inl ValueError \<and>
   extract_articles python (Some bracket_page) = Inl ValueError"
  by (simp add: model_defs bracket_page_def)

subsection \<open>The feed as head, items and tail\<close>

lemma for_articles_items: "for_articles rt as (c, k) = c @ items rt k as"
proof (induction as arbitrary: c k)
  case Nil
  then show ?case by simp
next
  case (Cons a as)
  then show ?case by (cases "render_article rt k a") simp
qed

lemma items_append:
  "items rt k (xs @ ys) = items rt k xs @ items rt (readings rt k xs) ys"
  by (induction xs arbitrary: k) auto

lemma generate_rss_xml_split:
  "generate_rss_xml rt (before @ a # after) =
     channel_head (utcnow rt 0) @ items rt 1 before @
     fst (render_article rt (readings rt 1 before) a) @
     items rt (snd (render_article rt (readings rt 1 before) a)) after @ channel_tail"
  by (simp add: generate_rss_xml_def for_articles_items items_append channel_tail_def)

lemma render_article_eq:
  "render_article rt k a =
     (item_block (escaped_title a) (escaped_link a) (escaped_description a)
        (fst (pub_date_rfc822 rt k a)), snd (pub_date_rfc822 rt k a))"
  by (cases "pub_date_rfc822 rt k a") (simp add: render_article_def)

lemma strptime_nonempty: "strptime rt [] = Inl ValueError"
  by (simp add: strptime_def format_regex_match_def alt_Y_def)

lemma pub_date_parsed:
  "pubDate a = Some s \<Longrightarrow> strptime rt s = Inr dt \<Longrightarrow>
     pub_date_rfc822 rt k a = (strftime_rfc822 (dt\<lparr>hour := 12, minute := 0, second := 0\<rparr>), k)"
  using strptime_nonempty [of rt] by (auto simp: pub_date_rfc822_def)

lemma pub_date_unparsed:
  "pubDate a = Some s \<Longrightarrow> strptime rt s = Inl e \<Longrightarrow>
     pub_date_rfc822 rt k a = (strftime_rfc822 (utcnow rt k), Suc k)"
  by (cases e) (auto simp: pub_date_rfc822_def)

subsection \<open>Two dates\<close>

lemmas date_defs =
  strptime_def format_regex_match_def alt_Y_def alt_m_def alt_d_def hyphen_def between_def
  isdigit_def todecimal_def int_of_def check_date_fields_def days_in_month_def
  DAYS_IN_MONTH_def is_leap_def u_def

lemmas rfc822_defs =
  strftime_rfc822_def weekday_def toordinal_def days_before_year_def days_before_month_def
  DAYS_IN_MONTH_def is_leap_def day_abbr_def month_abbr_def zfill_def str_nat.simps u_def

lemma strptime_2024_03_15:
  "strptime rt (u ''2024-03-15'') =
     Inr \<lparr>year = 2024, month = 3, day = 15, hour = 0, minute = 0, second = 0\<rparr>"
  by (simp add: date_defs)

lemma strptime_not_a_date: "strptime rt (u ''not-a-date'') = Inl ValueError"
  by (simp add: date_defs)

lemma rfc822_2024_03_15:
  "strftime_rfc822 \<lparr>year = 2024, month = 3, day = 15, hour = 12, minute = 0, second = 0\<rparr> =
     u ''Fri, 15 Mar 2024 12:00:00 +0000''"
  by (simp add: rfc822_defs)

subsection \<open>The timestamp of the library and that of the specification\<close>

lemma div_Suc_dvd: "Suc n div k = n div k + (if k dvd Suc n then 1 else 0)"
  by (simp add: div_Suc dvd_eq_mod_eq_0)

lemma days_of_years_sum:
  "days_of_years n + n div 100 = n * 365 + n div 4 + n div 400"
proof (induction n)
  case 0
  then show ?case by simp
next
  case (Suc n)
  define A :: nat where "A = (if 4 dvd Suc n then 1 else 0)"
  define B :: nat where "B = (if 100 dvd Suc n then 1 else 0)"
  define C :: nat where "C = (if 400 dvd Suc n then 1 else 0)"
  define L :: nat where "L = (if leap_year (Suc n) then 1 else 0)"
  have d1: "100 dvd Suc n \<Longrightarrow> 4 dvd Suc n" by (rule dvd_trans [of 4 100]) simp_all
  have d2: "400 dvd Suc n \<Longrightarrow> 100 dvd Suc n" by (rule dvd_trans [of 100 400]) simp_all
  have e4: "Suc n div 4 = n div 4 + A" unfolding A_def by (rule div_Suc_dvd)
  have e100: "Suc n div 100 = n div 100 + B" unfolding B_def by (rule div_Suc_dvd)
  have e400: "Suc n div 400 = n div 400 + C" unfolding C_def by (rule div_Suc_dvd)
  have key: "L + B = A + C"
    using d1 d2 unfolding A_def B_def C_def L_def leap_year_def
    by (cases "4 dvd Suc n"; cases "100 dvd Suc n"; cases "400 dvd Suc n") simp_all
  have s: "days_of_years (Suc n) = days_of_years n + 365 + L"
    unfolding L_def by simp
  have m: "Suc n * 365 = n * 365 + 365" by simp
  show ?case
    unfolding e4 e100 e400 s m using key Suc.IH by linarith
qed

lemma days_before_year_eq: "days_before_year (Suc n) = days_of_years n"
  using days_of_years_sum [of n] by (simp add: days_before_year_def)

lemma month_cases:
  assumes "1 \<le> m" and "m \<le> 12"
  shows "m = 1 \<or> m = 2 \<or> m = 3 \<or> m = 4 \<or> m = 5 \<or> m = 6 \<or> m = 7 \<or> m = 8 \<or> m = 9 \<or>
         m = 10 \<or> m = 11 \<or> m = (12::nat)"
  using assms by arith

lemma days_before_month_eq:
  assumes "1 \<le> m" and "m \<le> 12"
  shows "days_before_month y m = sum_list (map (month_days y) [1..<m])"
  using month_cases [OF assms]
  by (elim disjE)
    (simp_all add: days_before_month_def DAYS_IN_MONTH_def month_days_def is_leap_def
      leap_year_def upt_rec dvd_eq_mod_eq_0)

lemma weekday_eq:
  assumes "check_date_fields y m d"
  shows "weekday \<lparr>year = y, month = m, day = d, hour = hh, minute = mm, second = ss\<rparr> =
         day_of_week y m d"
proof -
  from assms obtain n k where y: "y = Suc n" and d: "d = Suc k" and m: "1 \<le> m" "m \<le> 12"
    by (cases y; cases d) (auto simp: check_date_fields_def)
  show ?thesis
    by (simp add: weekday_def toordinal_def day_of_week_def day_number_def y d
        days_before_year_eq days_before_month_eq [OF m] add.assoc)
qed

lemma day_abbr_eq: "w < 7 \<Longrightarrow> day_abbr w = day_name w"
proof -
  assume "w < 7"
  then have "w = 0 \<or> w = 1 \<or> w = 2 \<or> w = 3 \<or> w = 4 \<or> w = 5 \<or> w = 6" by arith
  then show ?thesis by (elim disjE) (simp_all add: day_abbr_def day_name_def)
qed

lemma month_abbr_eq:
  assumes "1 \<le> m" and "m \<le> 12"
  shows "month_abbr m = month_name m"
  using month_cases [OF assms]
  by (elim disjE) (simp_all add: month_abbr_def month_name_def)

lemma str_nat_1: "n < 10 \<Longrightarrow> str_nat n = [48 + n]"
  by (simp add: str_nat.simps [of n])

lemma str_nat_2: "10 \<le> n \<Longrightarrow> n < 100 \<Longrightarrow> str_nat n = [48 + n div 10, 48 + n mod 10]"
  by (simp add: str_nat.simps [of n] str_nat_1)

lemma str_nat_3:
  assumes "100 \<le> n" and "n < 1000"
  shows "str_nat n = [48 + n div 100, 48 + n div 10 mod 10, 48 + n mod 10]"
proof -
  have "n div 10 div 10 = n div 100" by (simp add: div_mult2_eq [symmetric])
  with assms show ?thesis by (simp add: str_nat.simps [of n] str_nat_2)
qed

lemma str_nat_4:
  assumes "1000 \<le> n" and "n < 10000"
  shows "str_nat n = [48 + n div 1000, 48 + n div 100 mod 10, 48 + n div 10 mod 10, 48 + n mod 10]"
proof -
  have "n div 10 div 100 = n div 1000" "n div 10 div 10 = n div 100"
    by (simp_all add: div_mult2_eq [symmetric])
  with assms show ?thesis by (simp add: str_nat.simps [of n] str_nat_3)
qed

lemma zfill_two_digits: "n < 100 \<Longrightarrow> zfill 2 (str_nat n) = two_digits n"
  by (cases "n < 10") (simp_all add: zfill_def two_digits_def str_nat_1 str_nat_2)

lemma str_nat_year_text:
  assumes "1 \<le> y" and "y \<le> 9999"
  shows "str_nat y = year_text y"
proof -
  consider "y < 10" | "10 \<le> y" "y < 100" | "100 \<le> y" "y < 1000" | "1000 \<le> y" "y < 10000"
    using assms by linarith
  then show ?thesis
  proof cases
    case 1
    with assms show ?thesis by (simp add: str_nat_1 year_text_def four_digits_def)
  next
    case 2
    then have "n10": "1 \<le> y div 10" "y div 10 < 10" by simp_all
    with 2 show ?thesis by (simp add: str_nat_2 year_text_def four_digits_def)
  next
    case 3
    then have "1 \<le> y div 100" "y div 100 < 10" by simp_all
    with 3 show ?thesis by (simp add: str_nat_3 year_text_def four_digits_def)
  next
    case 4
    then have "1 \<le> y div 1000" by simp
    with 4 show ?thesis by (simp add: str_nat_4 year_text_def four_digits_def)
  qed
qed

lemma strftime_rfc822_text:
  assumes "check_date_fields y m d" and "hh < 100" and "mm < 100" and "ss < 100"
  shows "strftime_rfc822 \<lparr>year = y, month = m, day = d, hour = hh, minute = mm, second = ss\<rparr> =
         rfc822_text y m d hh mm ss"
proof -
  from assms(1) have b: "1 \<le> y" "y \<le> 9999" "1 \<le> m" "m \<le> 12" "1 \<le> d"
    by (simp_all add: check_date_fields_def)
  have "days_in_month y m \<le> 31"
    using month_cases [OF b(3,4)]
    by (elim disjE) (simp_all add: days_in_month_def DAYS_IN_MONTH_def)
  with assms(1) have d: "d < 100" by (simp add: check_date_fields_def)
  have w: "day_of_week y m d < 7" by (simp add: day_of_week_def)
  show ?thesis
    by (simp add: strftime_rfc822_def rfc822_text_def weekday_eq [OF assms(1)]
        day_abbr_eq [OF w] month_abbr_eq [OF b(3,4)] str_nat_year_text [OF b(1,2)]
        zfill_two_digits d assms)
qed

subsection \<open>Escaping\<close>

lemma replace1_Nil [simp]: "replace1 old new [] = []"
  by (simp add: replace1_def)

lemma replace1_Cons:
  "replace1 old new (c # s) = (if c = old then new else [c]) @ replace1 old new s"
  by (simp add: replace1_def)

lemma replace1_append:
  "replace1 old new (xs @ ys) = replace1 old new xs @ replace1 old new ys"
  by (simp add: replace1_def)

lemma html_escape_Nil [simp]: "html_escape [] = []"
  by (simp add: html_escape_def)

lemma html_escape_Cons:
  "html_escape (c # s) =
     (if c = 38 then u ''&amp;''
      else if c = 60 then u ''&lt;''
      else if c = 62 then u ''&gt;''
      else if c = 34 then u ''&quot;''
      else if c = 39 then u ''&#x27;''
      else [c]) @ html_escape s"
  by (simp add: html_escape_def replace1_Cons replace1_append u_def)

lemma unescape_html_escape: "unescape (html_escape s) = s"
  by (induction s) (simp_all add: html_escape_Cons u_def startswith_def)

lemma escaped_only_html_escape: "escaped_only (html_escape s)"
  by (induction s) (simp_all add: html_escape_Cons u_def startswith_def)

subsection \<open>Markup in the empty feed\<close>

lemma occurrences_skip:
  assumes "p \<noteq> []" and "hd p \<notin> set D"
  shows "occurrences p (D @ B) = occurrences p B"
  using assms(2)
proof (induction D)
  case Nil
  then show ?case by simp
next
  case (Cons d D)
  from assms(1) obtain h p' where p: "p = h # p'" by (cases p) auto
  with Cons.prems have "\<not> startswith (d # D @ B) p"
    by (auto simp: startswith_def)
  with Cons show ?case by simp
qed

lemma day_abbr_letters: "60 \<notin> set (day_abbr w)"
proof -
  have "w mod 7 < 7" by simp
  then have "w mod 7 \<in> {0, 1, 2, 3, 4, 5, 6}" by auto
  then show ?thesis by (auto simp: day_abbr_def u_def)
qed

lemma month_abbr_letters: "60 \<notin> set (month_abbr m)"
proof (cases "1 \<le> m \<and> m \<le> 12")
  case False
  then show ?thesis by (auto simp: month_abbr_def)
next
  case True
  define names where "names = map u [''Jan'', ''Feb'', ''Mar'', ''Apr'', ''May'', ''Jun'',
                  ''Jul'', ''Aug'', ''Sep'', ''Oct'', ''Nov'', ''Dec'']"
  from True have "m - 1 < length names" by (simp add: names_def) arith
  then have "names ! (m - 1) \<in> set names" by (rule nth_mem)
  moreover have "\<forall>x \<in> set names. 60 \<notin> set x" by (simp add: names_def u_def)
  ultimately have "60 \<notin> set (names ! (m - 1))" by blast
  with True show ?thesis by (simp add: month_abbr_def names_def)
qed

lemma zfill_no_markup: "60 \<notin> set (zfill w (str_nat n))"
  using str_nat_digits [of 60 n] by (auto simp: zfill_def)

lemma str_nat_no_markup: "60 \<notin> set (str_nat n)"
  using str_nat_digits [of 60 n] by auto

lemma strftime_rfc822_no_markup: "60 \<notin> set (strftime_rfc822 t)"
  by (simp add: strftime_rfc822_def day_abbr_letters month_abbr_letters zfill_no_markup
      str_nat_no_markup u_def)

subsection \<open>Parsing the text of a date\<close>














lemma pub_date_unparsed_text:
  assumes "pubDate a = Some s" and "strptime rt s = Inl e" and "valid_datetime (utcnow rt k)"
  shows "pub_date_rfc822 rt k a =
           (rfc822_text (year (utcnow rt k)) (month (utcnow rt k)) (day (utcnow rt k))
              (hour (utcnow rt k)) (minute (utcnow rt k)) (second (utcnow rt k)), Suc k)"
proof -
  define t where "t = utcnow rt k"
  from assms(3) have v: "check_date_fields (year t) (month t) (day t)"
    and b: "hour t < 100" "minute t < 100" "second t < 100"
    by (simp_all add: valid_datetime_def t_def)
  have "strftime_rfc822 \<lparr>year = year t, month = month t, day = day t,
                hour = hour t, minute = minute t, second = second t\<rparr> =
          rfc822_text (year t) (month t) (day t) (hour t) (minute t) (second t)"
    by (rule strftime_rfc822_text [OF v b])
  moreover have "strftime_rfc822 t =
          strftime_rfc822 \<lparr>year = year t, month = month t, day = day t,
                hour = hour t, minute = minute t, second = second t\<rparr>"
    by (simp add: strftime_rfc822_def weekday_def toordinal_def)
  ultimately have "strftime_rfc822 t =
          rfc822_text (year t) (month t) (day t) (hour t) (minute t) (second t)"
    by (simp only:)
  then show ?thesis by (simp add: pub_date_unparsed [OF assms(1,2)] t_def)
qed

lemma items_Cons:
  "items rt j (b # bs) =
     item_block (escaped_title b) (escaped_link b) (escaped_description b)
       (fst (pub_date_rfc822 rt j b)) @
     items rt (snd (pub_date_rfc822 rt j b)) bs"
  by (simp add: render_article_eq)

lemma valid_python_clock: "valid_datetime (utcnow python k)"
  by (simp add: python_def valid_datetime_def check_date_fields_def days_in_month_def
      DAYS_IN_MONTH_def)

subsection \<open>The feed of the sample article\<close>

lemmas feed_defs =
  generate_rss_xml_def channel_head_def BASE_URL_def render_article_def item_block_def
  escaped_title_def escaped_link_def escaped_description_def html_escape_Cons u_def

lemma channel_head_python:
  "channel_head (utcnow python 0) =
     u ''<?xml version=\"1.0\" encoding=\"UTF-8\" ?>\<newline>'' @
     u ''<rss version=\"2.0\" xmlns:atom=\"http://www.w3.org/2005/Atom\">\<newline>'' @
     u ''<channel>\<newline>'' @
     u ''  <title>Orange News - Commentaries</title>\<newline>'' @
     u ''  <link>https://www.orangenews.hk/html/topic/index.html</link>\<newline>'' @
     u ''  <description>Latest commentaries from Orange News HK</description>\<newline>'' @
     u ''  <language>zh-cn</language>\<newline>'' @
     u ''  <atom:link href=\"https://totrphbm.manus.space/feed.xml\" rel=\"self\" type=\"application/rss+xml\" />\<newline>'' @
     u ''  <lastBuildDate>Mon, 20 May 2024 00:30:00 +0000</lastBuildDate>\<newline>''"
  by (simp add: channel_head_def BASE_URL_def python_def rfc822_defs)

lemma escaped_sample_article:
  "escaped_title sample_article = u ''Tom &amp; Jerry &lt;live&gt; &quot;now&quot;''"
  "escaped_link sample_article = u ''https://www.orangenews.hk/a?x=1&amp;y=2''"
  "escaped_description sample_article = u ''It&#x27;s on''"
  by (simp_all add: sample_article_def escaped_title_def escaped_link_def
      escaped_description_def html_escape_Cons u_def)


lemma rfc822_text_python_clock:
  "rfc822_text (year (utcnow python k)) (month (utcnow python k)) (day (utcnow python k))
     (hour (utcnow python k)) (minute (utcnow python k)) (second (utcnow python k)) =
   u ''Mon, 20 May 2024 00:30:00 +0000''"
proof -
  have "check_date_fields 2024 5 20"
    by (simp add: check_date_fields_def days_in_month_def DAYS_IN_MONTH_def)
  from strftime_rfc822_text [OF this, of 0 30 0] show ?thesis
    by (simp add: python_def rfc822_defs)
qed

section \<open>The claims\<close>

text \<open>
  Claim C1, as stated, counts as qualifying every link whose trimmed text is not empty,
  is no navigation label and has at least five characters, and whose \<open>href\<close> is
  present and not \<open>#\<close>. Line 77 also skips an \<open>href\<close> that is the empty string:
  the page \<^verbatim>\<open><a href="">Orange headline</a>\<close> has one such link and
  \<open>extract_articles\<close> returns no record for it.
\<close>

theorem C1_counterexample:
  "length (filter (qualifying python) (find_all_a empty_href_page)) = 1 \<and>
   distinct (map (resolved python) (filter (qualifying python) (find_all_a empty_href_page))) \<and>
   extract_articles python (Some empty_href_page) = Inr []"
  by (simp add: model_defs empty_href_page_def)

text \<open>
  Claim C1, amended: a link is accepted when its trimmed text is no navigation label
  and has at least five characters and its \<open>href\<close> is present, not empty and not
  \<open>#\<close>. If the resolved hrefs of the accepted links of a page are not empty and
  pairwise distinct (so \<open>urljoin\<close> raised on none of them), \<open>extract_articles\<close>
  returns exactly one record for each accepted link, in document order: the links of
  the records are the resolved hrefs and the titles the trimmed texts, in that order.
\<close>

theorem C1_accepted_links_in_order:
  assumes "\<forall>l \<in> set (filter (accepted rt) (find_all_a soup)). \<exists>h. resolved rt l = Inr h \<and> h \<noteq> []"
    and "distinct (map (resolved rt) (filter (accepted rt) (find_all_a soup)))"
  shows "\<exists>articles. extract_articles rt (Some soup) = Inr articles \<and>
           length articles = length (filter (accepted rt) (find_all_a soup)) \<and>
           map link articles =
             map (\<lambda>l. Some (projr (resolved rt l))) (filter (accepted rt) (find_all_a soup)) \<and>
           map title articles =
             map (\<lambda>l. Some (strip rt (get_text (fst l)))) (filter (accepted rt) (find_all_a soup))"
proof -
  define Q where "Q = filter (accepted rt) (find_all_a soup)"
  from assms(2) have dQ: "distinct Q" and inj: "inj_on (resolved rt) (set Q)"
    unfolding Q_def by (auto simp: distinct_map)
  have "inj_on (\<lambda>l. Some (projr (resolved rt l))) (set Q)"
  proof (rule inj_onI)
    fix x y
    assume x: "x \<in> set Q" and y: "y \<in> set Q"
      and e: "Some (projr (resolved rt x)) = Some (projr (resolved rt y))"
    from assms(1) x y obtain hx hy where "resolved rt x = Inr hx" "resolved rt y = Inr hy"
      unfolding Q_def by blast
    with e have "resolved rt x = resolved rt y" by simp
    with inj x y show "x = y" by (auto dest: inj_onD)
  qed
  with dQ have "distinct (map link [] @ map (\<lambda>l. Some (projr (resolved rt l))) Q)"
    by (simp add: distinct_map)
  from for_links_accepted [OF assms(1) this [unfolded Q_def], of 0]
  obtain out where out: "for_links rt (find_all_a soup) ([], 0) = Inr out"
    "map link out = map (\<lambda>l. Some (projr (resolved rt l))) (filter (accepted rt) (find_all_a soup))"
    "map title out = map (\<lambda>l. Some (strip rt (get_text (fst l)))) (filter (accepted rt) (find_all_a soup))"
    by auto
  from out(2) have "length out = length (filter (accepted rt) (find_all_a soup))"
    by (metis length_map)
  with out show ?thesis by (simp add: extract_articles_def)
qed

theorem C1_witness:
  "\<exists>articles. extract_articles python (Some two_links_page) = Inr articles \<and>
     length articles = 2 \<and>
     map link articles = [Some (u ''https://www.orangenews.hk/html/a1.html''),
                          Some (u ''https://www.orangenews.hk/news/a3.html'')] \<and>
     map title articles = [Some (u ''Orange headline one''), Some (u ''Orange headline three'')]"
proof -
  have h1: "\<forall>l \<in> set (filter (accepted python) (find_all_a two_links_page)).
              \<exists>h. resolved python l = Inr h \<and> h \<noteq> []"
    by (simp add: model_defs two_links_page_def)
  have h2: "distinct (map (resolved python) (filter (accepted python) (find_all_a two_links_page)))"
    by (simp add: model_defs two_links_page_def)
  have e: "length (filter (accepted python) (find_all_a two_links_page)) = 2"
    "map (\<lambda>l. Some (projr (resolved python l))) (filter (accepted python) (find_all_a two_links_page)) =
       [Some (u ''https://www.orangenews.hk/html/a1.html''),
        Some (u ''https://www.orangenews.hk/news/a3.html'')]"
    "map (\<lambda>l. Some (strip python (get_text (fst l)))) (filter (accepted python) (find_all_a two_links_page)) =
       [Some (u ''Orange headline one''), Some (u ''Orange headline three'')]"
    by (simp_all add: model_defs two_links_page_def)
  from C1_accepted_links_in_order [OF h1 h2] show ?thesis unfolding e .
qed

text \<open>
  Claim C2: a link whose trimmed text has fewer than five characters or is a navigation
  label, or whose \<open>href\<close> is absent or \<open>#\<close>, yields no record: the loop body
  adds nothing for it and reads no clock, and \<open>extract_articles\<close> returns what the
  loop returns on the links of the page with this one taken out.
\<close>

theorem C2_rejected_links_leave_no_record:
  assumes "i < length (find_all_a soup)" and "disqualified rt (find_all_a soup ! i)"
  shows "examine rt k (find_all_a soup ! i) = Inr (None, k) \<and>
         extract_articles rt (Some soup) =
           for_links rt (take i (find_all_a soup) @ drop (Suc i) (find_all_a soup)) ([], 0)"
proof -
  have ex: "\<And>k. examine rt k (find_all_a soup ! i) = Inr (None, k)"
    using assms(2) by (simp add: examine_not_accepted disqualified_not_accepted)
  have "find_all_a soup =
          take i (find_all_a soup) @ find_all_a soup ! i # drop (Suc i) (find_all_a soup)"
    using assms(1) by (rule id_take_nth_drop)
  then have "for_links rt (find_all_a soup) ([], 0) =
               for_links rt (take i (find_all_a soup) @ drop (Suc i) (find_all_a soup)) ([], 0)"
    using for_links_skip [of rt "find_all_a soup ! i" "take i (find_all_a soup)"
        "drop (Suc i) (find_all_a soup)" "[]" 0, OF ex]
    by simp
  with ex show ?thesis by (simp add: extract_articles_def)
qed

theorem C2_witness:
  "1 < length (find_all_a index_page) \<and> disqualified python (find_all_a index_page ! 1) \<and>
   examine python 0 (find_all_a index_page ! 1) = Inr (None, 0) \<and>
   extract_articles python (Some index_page) =
     for_links python (take 1 (find_all_a index_page) @ drop (Suc 1) (find_all_a index_page)) ([], 0)"
proof -
  have h1: "1 < length (find_all_a index_page)"
    by (simp add: index_page_def u_def)
  have h2: "disqualified python (find_all_a index_page ! 1)"
    by (simp add: model_defs index_page_def)
  from C2_rejected_links_leave_no_record [OF h1 h2, of 0] h1 h2 show ?thesis by blast
qed

text \<open>
  Claim C3: the links of the records that \<open>extract_articles\<close> returns are pairwise
  distinct, and of the candidates (the articles built for the links in document order)
  that share a link exactly the first is returned: the result is \<open>first_wins\<close> of
  the candidates.
\<close>

theorem C3_links_unique_first_wins:
  assumes "extract_articles rt (Some soup) = Inr articles"
  shows "distinct (map link articles) \<and>
         (\<exists>cs. candidates rt 0 (find_all_a soup) = Inr cs \<and> articles = first_wins cs)"
  using extract_articles_candidates [OF assms] distinct_first_wins by auto

theorem C3_witness:
  "extract_articles python (Some index_page) = Inr [article_one, article_three] \<and>
   distinct (map link [article_one, article_three]) \<and>
   candidates python 0 (find_all_a index_page) = Inr [article_one, article_three, article_dup] \<and>
   [article_one, article_three] = first_wins [article_one, article_three, article_dup]"
proof -
  note c = C3_links_unique_first_wins [OF extract_index_page]
  from c have d: "distinct (map link [article_one, article_three])" by blast
  from c obtain cs where cs: "candidates python 0 (find_all_a index_page) = Inr cs"
    and fw: "[article_one, article_three] = first_wins cs"
    by blast
  from cs have "cs = [article_one, article_three, article_dup]"
    by (simp add: candidates_index_page)
  with fw have "[article_one, article_three] = first_wins [article_one, article_three, article_dup]"
    by (simp only:)
  with extract_index_page d candidates_index_page show ?thesis by blast
qed

text \<open>
  Claim C4: every record returned was built from a link of the page, and its
  \<open>pubDate\<close> is the first match of the date pattern in the text of the first of the
  link's five nearest parents that has a match, or else the reading of the local clock
  at that moment, written as \<open>YYYY-MM-DD\<close>.
\<close>

theorem C4_date_from_first_five_parents:
  assumes "extract_articles rt (Some soup) = Inr articles" and "r \<in> set articles"
  shows "\<exists>l \<in> set (find_all_a soup). \<exists>k k'.
           examine rt k l = Inr (Some r, k') \<and>
           pubDate r = Some (case first_date rt (take 5 (snd l)) of
                               Some d \<Rightarrow> d
                             | None \<Rightarrow> strftime_ymd (now rt k))"
proof -
  from extract_articles_origin [OF assms]
  obtain l k k' where l: "l \<in> set (find_all_a soup)" "examine rt k l = Inr (Some r, k')"
    by blast
  from examine_Some [OF l(2)] have "pubDate r = Some (fst (infer_date rt k (snd l)))"
    by auto
  then have "pubDate r = Some (case first_date rt (take 5 (snd l)) of
                               Some d \<Rightarrow> d
                             | None \<Rightarrow> strftime_ymd (now rt k))"
    by (simp add: infer_date_first_date split: option.splits)
  with l show ?thesis by blast
qed

theorem C4_witness:
  "extract_articles python (Some index_page) = Inr [article_one, article_three] \<and>
   (\<exists>l \<in> set (find_all_a index_page). \<exists>k k'.
      examine python k l = Inr (Some article_three, k') \<and>
      pubDate article_three = Some (case first_date python (take 5 (snd l)) of
                                      Some d \<Rightarrow> d
                                    | None \<Rightarrow> strftime_ymd (now python k)))"
  using C4_date_from_first_five_parents [OF extract_index_page, of article_three]
  by (simp add: extract_index_page)

text \<open>
  Claim C5 holds of the specification and fails on the code. Line 80 announces
  \<open># Normalize URL\<close>, and line 81 tests \<open>href.startswith('http')\<close> where an
  absolute URL is meant. The relative path \<open>httpdocs/a.html\<close> has no scheme and
  \<open>urljoin\<close> resolves it to \<open>https://www.orangenews.hk/httpdocs/a.html\<close>, yet
  on the page \<^verbatim>\<open><a href="httpdocs/a.html">Orange headline</a>\<close> the record
  returned has the link \<open>httpdocs/a.html\<close>: the href passes line 81 unresolved,
  while the sibling path \<open>docs/a.html\<close> is resolved against the base URL.
\<close>

theorem C5_relative_href_stored_unresolved:
  "extract_articles python (Some http_path_page) =
     Inr [\<lparr>title = Some (u ''Orange headline''), link = Some (u ''httpdocs/a.html''),
           pubDate = Some (u ''2024-05-20''), description = Some (u ''Orange headline'')\<rparr>] \<and>
   \<not> has_scheme (u ''httpdocs/a.html'') \<and>
   urljoin python BASE_URL (u ''httpdocs/a.html'') =
     Inr (u ''https://www.orangenews.hk/httpdocs/a.html'') \<and>
   normalize_url python (u ''httpdocs/a.html'') = Inr (u ''httpdocs/a.html'') \<and>
   normalize_url python (u ''docs/a.html'') = Inr (u ''https://www.orangenews.hk/docs/a.html'')"
  by (simp add: model_defs http_path_page_def)



text \<open>
  Claim C7: \<open>strptime\<close> is the one call of the loop that raises, and its
  \<open>ValueError\<close> is caught at line 142. When it raises on the \<open>pubDate\<close> of a
  record, \<open>generate_rss_xml\<close> returns the channel head, the items of the records
  before, the item of this record and the items of the records after. The item is
  written out line by line: its \<open>pubDate\<close> line holds \<open>rfc822_text\<close> of the
  reading of the UTC clock made at that moment, which is assumed to be a date and time
  that the \<open>datetime\<close> constructor accepts. The items of a list of records are
  the item of each record in turn, line by line, nothing for the empty list.
  \<open>not-a-date\<close> is such a \<open>pubDate\<close> for every runtime.
\<close>

theorem C7_bad_date_uses_clock:
  assumes "pubDate a = Some s" and "strptime rt s = Inl e"
    and "valid_datetime (utcnow rt (readings rt 1 before))"
  shows "generate_rss_xml rt (before @ a # after) =
           channel_head (utcnow rt 0) @ items rt 1 before @
           (u ''  <item>\<newline>'' @
             u ''    <title>'' @ escaped_title a @ u ''</title>\<newline>'' @
             u ''    <link>'' @ escaped_link a @ u ''</link>\<newline>'' @
             u ''    <description>'' @ escaped_description a @ u ''</description>\<newline>'' @
             u ''    <pubDate>'' @ rfc822_text (year (utcnow rt (readings rt 1 before)))
              (month (utcnow rt (readings rt 1 before)))
              (day (utcnow rt (readings rt 1 before)))
              (hour (utcnow rt (readings rt 1 before)))
              (minute (utcnow rt (readings rt 1 before)))
              (second (utcnow rt (readings rt 1 before))) @ u ''</pubDate>\<newline>'' @
             u ''    <guid isPermaLink=\"true\">'' @ escaped_link a @ u ''</guid>\<newline>'' @
             u ''  </item>\<newline>'') @
           items rt (Suc (readings rt 1 before)) after @
           u ''</channel>\<newline>'' @ u ''</rss>\<newline>'' \<and>
         items rt j [] = [] \<and>
         items rt j (b # bs) =
           (u ''  <item>\<newline>'' @
             u ''    <title>'' @ escaped_title b @ u ''</title>\<newline>'' @
             u ''    <link>'' @ escaped_link b @ u ''</link>\<newline>'' @
             u ''    <description>'' @ escaped_description b @ u ''</description>\<newline>'' @
             u ''    <pubDate>'' @ fst (pub_date_rfc822 rt j b) @ u ''</pubDate>\<newline>'' @
             u ''    <guid isPermaLink=\"true\">'' @ escaped_link b @ u ''</guid>\<newline>'' @
             u ''  </item>\<newline>'') @
           items rt (snd (pub_date_rfc822 rt j b)) bs \<and>
         strptime rt (u ''not-a-date'') = Inl ValueError"
  using pub_date_unparsed_text [OF assms]
  by (simp add: generate_rss_xml_split render_article_eq item_block_def channel_tail_def
      strptime_not_a_date)

theorem C7_witness:
  "strptime python (u ''not-a-date'') = Inl ValueError \<and>
   valid_datetime (utcnow python (readings python 1 [sample_article])) \<and>
   generate_rss_xml python
     [sample_article, sample_article\<lparr>pubDate := Some (u ''not-a-date'')\<rparr>, sample_article] =
     u ''<?xml version=\"1.0\" encoding=\"UTF-8\" ?>\<newline>'' @
     u ''<rss version=\"2.0\" xmlns:atom=\"http://www.w3.org/2005/Atom\">\<newline>'' @
     u ''<channel>\<newline>'' @
     u ''  <title>Orange News - Commentaries</title>\<newline>'' @
     u ''  <link>https://www.orangenews.hk/html/topic/index.html</link>\<newline>'' @
     u ''  <description>Latest commentaries from Orange News HK</description>\<newline>'' @
     u ''  <language>zh-cn</language>\<newline>'' @
     u ''  <atom:link href=\"https://totrphbm.manus.space/feed.xml\" rel=\"self\" type=\"application/rss+xml\" />\<newline>'' @
     u ''  <lastBuildDate>Mon, 20 May 2024 00:30:00 +0000</lastBuildDate>\<newline>'' @
     u ''  <item>\<newline>'' @
     u ''    <title>Tom &amp; Jerry &lt;live&gt; &quot;now&quot;</title>\<newline>'' @
     u ''    <link>https://www.orangenews.hk/a?x=1&amp;y=2</link>\<newline>'' @
     u ''    <description>It&#x27;s on</description>\<newline>'' @
     u ''    <pubDate>Fri, 15 Mar 2024 12:00:00 +0000</pubDate>\<newline>'' @
     u ''    <guid isPermaLink=\"true\">https://www.orangenews.hk/a?x=1&amp;y=2</guid>\<newline>'' @
     u ''  </item>\<newline>'' @
     u ''  <item>\<newline>'' @
     u ''    <title>Tom &amp; Jerry &lt;live&gt; &quot;now&quot;</title>\<newline>'' @
     u ''    <link>https://www.orangenews.hk/a?x=1&amp;y=2</link>\<newline>'' @
     u ''    <description>It&#x27;s on</description>\<newline>'' @
     u ''    <pubDate>Mon, 20 May 2024 00:30:00 +0000</pubDate>\<newline>'' @
     u ''    <guid isPermaLink=\"true\">https://www.orangenews.hk/a?x=1&amp;y=2</guid>\<newline>'' @
     u ''  </item>\<newline>'' @
     u ''  <item>\<newline>'' @
     u ''    <title>Tom &amp; Jerry &lt;live&gt; &quot;now&quot;</title>\<newline>'' @
     u ''    <link>https://www.orangenews.hk/a?x=1&amp;y=2</link>\<newline>'' @
     u ''    <description>It&#x27;s on</description>\<newline>'' @
     u ''    <pubDate>Fri, 15 Mar 2024 12:00:00 +0000</pubDate>\<newline>'' @
     u ''    <guid isPermaLink=\"true\">https://www.orangenews.hk/a?x=1&amp;y=2</guid>\<newline>'' @
     u ''  </item>\<newline>'' @
     u ''</channel>\<newline>'' @
     u ''</rss>\<newline>''"
proof -
  have h1: "pubDate (sample_article\<lparr>pubDate := Some (u ''not-a-date'')\<rparr>) = Some (u ''not-a-date'')"
    by simp
  note h2 = strptime_not_a_date [of python]
  note h3 = valid_python_clock [of "readings python 1 [sample_article]"]
  have p: "pub_date_rfc822 python j sample_article = (u ''Fri, 15 Mar 2024 12:00:00 +0000'', j)"
    for j
    using pub_date_parsed [of sample_article "u ''2024-03-15''" python
        "\<lparr>year = 2024, month = 3, day = 15, hour = 0, minute = 0, second = 0\<rparr>" j]
    by (simp add: sample_article_def strptime_2024_03_15 rfc822_2024_03_15)
  have r: "render_article python j sample_article =
             (u ''  <item>\<newline>'' @
             u ''    <title>Tom &amp; Jerry &lt;live&gt; &quot;now&quot;</title>\<newline>'' @
             u ''    <link>https://www.orangenews.hk/a?x=1&amp;y=2</link>\<newline>'' @
             u ''    <description>It&#x27;s on</description>\<newline>'' @
             u ''    <pubDate>Fri, 15 Mar 2024 12:00:00 +0000</pubDate>\<newline>'' @
             u ''    <guid isPermaLink=\"true\">https://www.orangenews.hk/a?x=1&amp;y=2</guid>\<newline>'' @
             u ''  </item>\<newline>'', j)"
    for j
    by (simp add: render_article_eq p escaped_sample_article item_block_def u_def)
  have e: "escaped_title (sample_article\<lparr>pubDate := x\<rparr>) = escaped_title sample_article"
    "escaped_link (sample_article\<lparr>pubDate := x\<rparr>) = escaped_link sample_article"
    "escaped_description (sample_article\<lparr>pubDate := x\<rparr>) =
       escaped_description sample_article"
    for x
    by (simp_all add: escaped_title_def escaped_link_def escaped_description_def
        sample_article_def)
  from C7_bad_date_uses_clock [OF h1 h2 h3, of "[sample_article]", THEN conjunct1]
  have "generate_rss_xml python
     [sample_article, sample_article\<lparr>pubDate := Some (u ''not-a-date'')\<rparr>, sample_article] =
     u ''<?xml version=\"1.0\" encoding=\"UTF-8\" ?>\<newline>'' @
     u ''<rss version=\"2.0\" xmlns:atom=\"http://www.w3.org/2005/Atom\">\<newline>'' @
     u ''<channel>\<newline>'' @
     u ''  <title>Orange News - Commentaries</title>\<newline>'' @
     u ''  <link>https://www.orangenews.hk/html/topic/index.html</link>\<newline>'' @
     u ''  <description>Latest commentaries from Orange News HK</description>\<newline>'' @
     u ''  <language>zh-cn</language>\<newline>'' @
     u ''  <atom:link href=\"https://totrphbm.manus.space/feed.xml\" rel=\"self\" type=\"application/rss+xml\" />\<newline>'' @
     u ''  <lastBuildDate>Mon, 20 May 2024 00:30:00 +0000</lastBuildDate>\<newline>'' @
     u ''  <item>\<newline>'' @
     u ''    <title>Tom &amp; Jerry &lt;live&gt; &quot;now&quot;</title>\<newline>'' @
     u ''    <link>https://www.orangenews.hk/a?x=1&amp;y=2</link>\<newline>'' @
     u ''    <description>It&#x27;s on</description>\<newline>'' @
     u ''    <pubDate>Fri, 15 Mar 2024 12:00:00 +0000</pubDate>\<newline>'' @
     u ''    <guid isPermaLink=\"true\">https://www.orangenews.hk/a?x=1&amp;y=2</guid>\<newline>'' @
     u ''  </item>\<newline>'' @
     u ''  <item>\<newline>'' @
     u ''    <title>Tom &amp; Jerry &lt;live&gt; &quot;now&quot;</title>\<newline>'' @
     u ''    <link>https://www.orangenews.hk/a?x=1&amp;y=2</link>\<newline>'' @
     u ''    <description>It&#x27;s on</description>\<newline>'' @
     u ''    <pubDate>Mon, 20 May 2024 00:30:00 +0000</pubDate>\<newline>'' @
     u ''    <guid isPermaLink=\"true\">https://www.orangenews.hk/a?x=1&amp;y=2</guid>\<newline>'' @
     u ''  </item>\<newline>'' @
     u ''  <item>\<newline>'' @
     u ''    <title>Tom &amp; Jerry &lt;live&gt; &quot;now&quot;</title>\<newline>'' @
     u ''    <link>https://www.orangenews.hk/a?x=1&amp;y=2</link>\<newline>'' @
     u ''    <description>It&#x27;s on</description>\<newline>'' @
     u ''    <pubDate>Fri, 15 Mar 2024 12:00:00 +0000</pubDate>\<newline>'' @
     u ''    <guid isPermaLink=\"true\">https://www.orangenews.hk/a?x=1&amp;y=2</guid>\<newline>'' @
     u ''  </item>\<newline>'' @
     u ''</channel>\<newline>'' @
     u ''</rss>\<newline>''"
    by (simp add: channel_head_python r e escaped_sample_article rfc822_text_python_clock u_def)
  with h2 h3 show ?thesis by blast
qed

text \<open>
  Claim C8: for a record with a title \<open>t\<close>, a link \<open>l\<close> and a description
  \<open>d\<close>, the feed is the channel head, the items of the records before, the item of
  this record and the items of the records after, and the item is written out line by
  line: the \<open>title\<close> line holds \<open>html.escape\<close> of \<open>t\<close>, the \<open>link\<close>
  and \<open>guid\<close> lines that of \<open>l\<close>, the \<open>description\<close> line that of
  \<open>d\<close>, and the fields occur nowhere else in it. An escaped field has no raw
  \<open><\<close>, \<open>>\<close> or quote, each of its ampersands starts one of the five
  entities that \<open>html.escape\<close> writes, and replacing these entities by their
  characters gives the field back. \<open>html.escape\<close> writes \<open>&amp;\<close>,
  \<open>&lt;\<close>, \<open>&gt;\<close>, \<open>&quot;\<close> and \<open>&#x27;\<close> for the ampersand,
  the angle brackets and the two quotes, and every other character as it is.
\<close>

theorem C8_fields_escaped_roundtrip:
  assumes "title a = Some t" and "link a = Some l" and "description a = Some d"
  shows "generate_rss_xml rt (before @ a # after) =
           channel_head (utcnow rt 0) @ items rt 1 before @
           (u ''  <item>\<newline>'' @
             u ''    <title>'' @ html_escape t @ u ''</title>\<newline>'' @
             u ''    <link>'' @ html_escape l @ u ''</link>\<newline>'' @
             u ''    <description>'' @ html_escape d @ u ''</description>\<newline>'' @
             u ''    <pubDate>'' @ fst (pub_date_rfc822 rt (readings rt 1 before) a) @ u ''</pubDate>\<newline>'' @
             u ''    <guid isPermaLink=\"true\">'' @ html_escape l @ u ''</guid>\<newline>'' @
             u ''  </item>\<newline>'') @
           items rt (snd (pub_date_rfc822 rt (readings rt 1 before) a)) after @
           u ''</channel>\<newline>'' @ u ''</rss>\<newline>'' \<and>
         escaped_only (html_escape t) \<and> unescape (html_escape t) = t \<and>
         escaped_only (html_escape l) \<and> unescape (html_escape l) = l \<and>
         escaped_only (html_escape d) \<and> unescape (html_escape d) = d \<and>
         html_escape [] = [] \<and>
         html_escape (c # x) =
           (if c = 38 then u ''&amp;''
            else if c = 60 then u ''&lt;''
            else if c = 62 then u ''&gt;''
            else if c = 34 then u ''&quot;''
            else if c = 39 then u ''&#x27;''
            else [c]) @ html_escape x"
  using assms
  by (simp add: generate_rss_xml_split render_article_eq escaped_title_def escaped_link_def
      escaped_description_def escaped_only_html_escape unescape_html_escape item_block_def
      channel_tail_def html_escape_Cons)

theorem C8_witness:
  "title sample_article = Some (u ''Tom & Jerry <live> \"now\"'') \<and>
   link sample_article = Some (u ''https://www.orangenews.hk/a?x=1&y=2'') \<and>
   description sample_article = Some (u ''It's on'') \<and>
   unescape (u ''Tom &amp; Jerry &lt;live&gt; &quot;now&quot;'') = u ''Tom & Jerry <live> \"now\"'' \<and>
   unescape (u ''https://www.orangenews.hk/a?x=1&amp;y=2'') = u ''https://www.orangenews.hk/a?x=1&y=2'' \<and>
   unescape (u ''It&#x27;s on'') = u ''It's on'' \<and>
   generate_rss_xml python [sample_article] =
     u ''<?xml version=\"1.0\" encoding=\"UTF-8\" ?>\<newline>'' @
     u ''<rss version=\"2.0\" xmlns:atom=\"http://www.w3.org/2005/Atom\">\<newline>'' @
     u ''<channel>\<newline>'' @
     u ''  <title>Orange News - Commentaries</title>\<newline>'' @
     u ''  <link>https://www.orangenews.hk/html/topic/index.html</link>\<newline>'' @
     u ''  <description>Latest commentaries from Orange News HK</description>\<newline>'' @
     u ''  <language>zh-cn</language>\<newline>'' @
     u ''  <atom:link href=\"https://totrphbm.manus.space/feed.xml\" rel=\"self\" type=\"application/rss+xml\" />\<newline>'' @
     u ''  <lastBuildDate>Mon, 20 May 2024 00:30:00 +0000</lastBuildDate>\<newline>'' @
     u ''  <item>\<newline>'' @
     u ''    <title>Tom &amp; Jerry &lt;live&gt; &quot;now&quot;</title>\<newline>'' @
     u ''    <link>https://www.orangenews.hk/a?x=1&amp;y=2</link>\<newline>'' @
     u ''    <description>It&#x27;s on</description>\<newline>'' @
     u ''    <pubDate>Fri, 15 Mar 2024 12:00:00 +0000</pubDate>\<newline>'' @
     u ''    <guid isPermaLink=\"true\">https://www.orangenews.hk/a?x=1&amp;y=2</guid>\<newline>'' @
     u ''  </item>\<newline>'' @
     u ''</channel>\<newline>'' @
     u ''</rss>\<newline>''"
proof -
  have h: "title sample_article = Some (u ''Tom & Jerry <live> \"now\"'')"
    "link sample_article = Some (u ''https://www.orangenews.hk/a?x=1&y=2'')"
    "description sample_article = Some (u ''It's on'')"
    by (simp_all add: sample_article_def)
  have e: "html_escape (u ''Tom & Jerry <live> \"now\"'') = u ''Tom &amp; Jerry &lt;live&gt; &quot;now&quot;''"
    "html_escape (u ''https://www.orangenews.hk/a?x=1&y=2'') = u ''https://www.orangenews.hk/a?x=1&amp;y=2''"
    "html_escape (u ''It's on'') = u ''It&#x27;s on''"
    by (simp_all add: u_def html_escape_Cons)
  have p: "pub_date_rfc822 python (Suc 0) sample_article =
             (u ''Fri, 15 Mar 2024 12:00:00 +0000'', Suc 0)"
    using pub_date_parsed [of sample_article "u ''2024-03-15''" python
        "\<lparr>year = 2024, month = 3, day = 15, hour = 0, minute = 0, second = 0\<rparr>" "Suc 0"]
    by (simp add: sample_article_def strptime_2024_03_15 rfc822_2024_03_15)
  note c = C8_fields_escaped_roundtrip [OF h, of python "[]" "[]"]
  from c have u: "unescape (u ''Tom &amp; Jerry &lt;live&gt; &quot;now&quot;'') = u ''Tom & Jerry <live> \"now\"''"
    "unescape (u ''https://www.orangenews.hk/a?x=1&amp;y=2'') = u ''https://www.orangenews.hk/a?x=1&y=2''"
    "unescape (u ''It&#x27;s on'') = u ''It's on''"
    by (simp_all add: e)
  from c have "generate_rss_xml python [sample_article] =
     u ''<?xml version=\"1.0\" encoding=\"UTF-8\" ?>\<newline>'' @
     u ''<rss version=\"2.0\" xmlns:atom=\"http://www.w3.org/2005/Atom\">\<newline>'' @
     u ''<channel>\<newline>'' @
     u ''  <title>Orange News - Commentaries</title>\<newline>'' @
     u ''  <link>https://www.orangenews.hk/html/topic/index.html</link>\<newline>'' @
     u ''  <description>Latest commentaries from Orange News HK</description>\<newline>'' @
     u ''  <language>zh-cn</language>\<newline>'' @
     u ''  <atom:link href=\"https://totrphbm.manus.space/feed.xml\" rel=\"self\" type=\"application/rss+xml\" />\<newline>'' @
     u ''  <lastBuildDate>Mon, 20 May 2024 00:30:00 +0000</lastBuildDate>\<newline>'' @
     u ''  <item>\<newline>'' @
     u ''    <title>Tom &amp; Jerry &lt;live&gt; &quot;now&quot;</title>\<newline>'' @
     u ''    <link>https://www.orangenews.hk/a?x=1&amp;y=2</link>\<newline>'' @
     u ''    <description>It&#x27;s on</description>\<newline>'' @
     u ''    <pubDate>Fri, 15 Mar 2024 12:00:00 +0000</pubDate>\<newline>'' @
     u ''    <guid isPermaLink=\"true\">https://www.orangenews.hk/a?x=1&amp;y=2</guid>\<newline>'' @
     u ''  </item>\<newline>'' @
     u ''</channel>\<newline>'' @
     u ''</rss>\<newline>''"
    by (simp add: e p channel_head_python u_def)
  with h u show ?thesis by blast
qed

text \<open>
  Claim C9: for the empty list \<open>generate_rss_xml\<close> returns the XML declaration,
  the \<open>rss\<close> root of version 2.0 with the atom namespace, and the channel with its
  fixed metadata and the build date: the text contains \<open><channel>\<close> and
  \<open></channel>\<close> once each and \<open><item>\<close> nowhere.
\<close>

theorem C9_empty_feed:
  "generate_rss_xml rt [] =
     u ''<?xml version=\"1.0\" encoding=\"UTF-8\" ?>\<newline>'' @
     u ''<rss version=\"2.0\" xmlns:atom=\"http://www.w3.org/2005/Atom\">\<newline>'' @
     u ''<channel>\<newline>'' @
     u ''  <title>Orange News - Commentaries</title>\<newline>'' @
     u ''  <link>https://www.orangenews.hk/html/topic/index.html</link>\<newline>'' @
     u ''  <description>Latest commentaries from Orange News HK</description>\<newline>'' @
     u ''  <language>zh-cn</language>\<newline>'' @
     u ''  <atom:link href=\"https://totrphbm.manus.space/feed.xml\" rel=\"self\" type=\"application/rss+xml\" />\<newline>'' @
     u ''  <lastBuildDate>'' @ strftime_rfc822 (utcnow rt 0) @ u ''</lastBuildDate>\<newline>'' @
     u ''</channel>\<newline>'' @
     u ''</rss>\<newline>'' \<and>
   occurrences (u ''<item>'') (generate_rss_xml rt []) = 0 \<and>
   occurrences (u ''<channel>'') (generate_rss_xml rt []) = 1 \<and>
   occurrences (u ''</channel>'') (generate_rss_xml rt []) = 1"
proof -
  define D where "D = strftime_rfc822 (utcnow rt 0)"
  define B where "B = u ''</lastBuildDate>\<newline>'' @ u ''</channel>\<newline>'' @ u ''</rss>\<newline>''"
  have D: "60 \<notin> set D" unfolding D_def by (rule strftime_rfc822_no_markup)
  have skip: "occurrences (60 # p) (D @ B) = occurrences (60 # p) B" for p
    using D by (intro occurrences_skip) simp_all
  have B1: "occurrences (u ''<item>'') B = 0" "occurrences (u ''<channel>'') B = 0"
    "occurrences (u ''</channel>'') B = 1"
    by (simp_all add: B_def u_def startswith_def)
  have split: "generate_rss_xml rt [] =
     u ''<?xml version=\"1.0\" encoding=\"UTF-8\" ?>\<newline>'' @
     u ''<rss version=\"2.0\" xmlns:atom=\"http://www.w3.org/2005/Atom\">\<newline>'' @
     u ''<channel>\<newline>'' @
     u ''  <title>Orange News - Commentaries</title>\<newline>'' @
     u ''  <link>https://www.orangenews.hk/html/topic/index.html</link>\<newline>'' @
     u ''  <description>Latest commentaries from Orange News HK</description>\<newline>'' @
     u ''  <language>zh-cn</language>\<newline>'' @
     u ''  <atom:link href=\"https://totrphbm.manus.space/feed.xml\" rel=\"self\" type=\"application/rss+xml\" />\<newline>'' @
     u ''  <lastBuildDate>'' @ D @ B"
    by (simp add: generate_rss_xml_def channel_head_def BASE_URL_def D_def B_def u_def)
  have o1: "occurrences (u ''<item>'') (generate_rss_xml rt []) = occurrences (u ''<item>'') (D @ B)"
    unfolding split by (simp add: u_def startswith_def)
  have o2: "occurrences (u ''<channel>'') (generate_rss_xml rt []) =
              1 + occurrences (u ''<channel>'') (D @ B)"
    unfolding split by (simp add: u_def startswith_def)
  have o3: "occurrences (u ''</channel>'') (generate_rss_xml rt []) =
              occurrences (u ''</channel>'') (D @ B)"
    unfolding split by (simp add: u_def startswith_def)
  have s1: "occurrences (u ''<item>'') (D @ B) = 0" "occurrences (u ''<channel>'') (D @ B) = 0"
    "occurrences (u ''</channel>'') (D @ B) = 1"
    using skip B1 by (simp_all add: u_def)
  show ?thesis
    using split o1 o2 o3 s1 by (simp add: D_def B_def)
qed

text \<open>
  Claim C10: every record returned has a title that is trimmed and has at least five
  characters, a link that is neither empty nor \<open>#\<close>, a description equal to the
  title, and a \<open>pubDate\<close> of ten characters that matches the date pattern. Two facts
  of the libraries are assumed: \<open>urljoin\<close> with the base URL never returns \<open>#\<close>,
  and every reading of the clock is a date that the \<open>datetime\<close> constructor
  accepts.
\<close>

theorem C10_record_invariant:
  assumes "extract_articles rt (Some soup) = Inr articles" and "r \<in> set articles"
    and "\<forall>h. urljoin rt BASE_URL h \<noteq> Inr (u ''#'')"
    and "\<forall>k. check_date_fields (year (now rt k)) (month (now rt k)) (day (now rt k))"
  shows "\<exists>t h d. title r = Some t \<and> strip rt t = t \<and> 5 \<le> length t \<and>
           link r = Some h \<and> h \<noteq> [] \<and> h \<noteq> u ''#'' \<and>
           description r = Some t \<and>
           pubDate r = Some d \<and> length d = 10 \<and> match_here rt date_re d"
proof -
  from extract_articles_origin [OF assms(1,2)]
  obtain l k k' where l: "l \<in> set (find_all_a soup)" "examine rt k l = Inr (Some r, k')"
    by blast
  from examine_Some [OF l(2)] obtain h where acc: "accepted rt l"
    and h: "resolved rt l = Inr h" "h \<noteq> []"
    and r: "r = \<lparr>title = Some (strip rt (get_text (fst l))), link = Some h,
                 pubDate = Some (fst (infer_date rt k (snd l))),
                 description = Some (strip rt (get_text (fst l)))\<rparr>"
    by auto
  from acc obtain href where href: "get_attr (fst l) (u ''href'') = Some href" "href \<noteq> u ''#''"
    and len: "5 \<le> length (strip rt (get_text (fst l)))"
    by (auto simp: accepted_def split: option.splits)
  from h(1) href have "normalize_url rt href = Inr h" by (simp add: resolved_def href_of_def)
  with href(2) assms(3) have hash: "h \<noteq> u ''#''"
    by (auto simp: normalize_url_def split: if_splits)
  have d: "length (fst (infer_date rt k (snd l))) = 10 \<and>
           match_here rt date_re (fst (infer_date rt k (snd l)))"
    using first_date_nonempty [of rt "take 5 (snd l)"] strftime_ymd_matches [of "now rt k" rt]
      assms(4)
    by (auto simp: infer_date_first_date split: option.splits)
  show ?thesis
    using r len h(2) hash d by (simp add: strip_idem)
qed

theorem C10_witness:
  "extract_articles python (Some index_page) = Inr [article_one, article_three] \<and>
   (\<exists>t h d. title article_one = Some t \<and> strip python t = t \<and> 5 \<le> length t \<and>
      link article_one = Some h \<and> h \<noteq> [] \<and> h \<noteq> u ''#'' \<and>
      description article_one = Some t \<and>
      pubDate article_one = Some d \<and> length d = 10 \<and> match_here python date_re d)"
proof -
  have h3: "\<forall>h. urljoin python BASE_URL h \<noteq> Inr (u ''#'')"
    using urllib_urljoin_not_hash by (simp add: python_def)
  have h4: "\<forall>k. check_date_fields (year (now python k)) (month (now python k))
                (day (now python k))"
    by (simp add: python_def check_date_fields_def days_in_month_def DAYS_IN_MONTH_def)
  have h2: "article_one \<in> set [article_one, article_three]" by simp
  from C10_record_invariant [OF extract_index_page h2 h3 h4] extract_index_page
  show ?thesis by blast
qed

end
